theory Spec2Isabelle
  imports Main
begin

section \<open>Go values used by the viewer\<close>

text \<open>
  The interactive viewer of \<^verbatim>\<open>interactive.go\<close> keeps all of its state in local
  variables of \<^verbatim>\<open>runInteractiveMode\<close> that its closures share. Go's \<^verbatim>\<open>int\<close> is
  modelled as \<^typ>\<open>int\<close>: every integer of the viewer is an index, a length or a
  terminal dimension, far from the 64-bit bounds. Strings are byte lists.
\<close>

text \<open>Reading a Go map at a missing key gives the zero value of the element type.\<close>

definition getB :: "(int \<rightharpoonup> bool) \<Rightarrow> int \<Rightarrow> bool" where
  "getB m k = (case m k of None \<Rightarrow> False | Some b \<Rightarrow> b)"

definition getI :: "(int \<rightharpoonup> int) \<Rightarrow> int \<Rightarrow> int" where
  "getI m k = (case m k of None \<Rightarrow> 0 | Some v \<Rightarrow> v)"

text \<open>Go's integer division truncates towards zero.\<close>

definition quo :: "int \<Rightarrow> int \<Rightarrow> int" where
  "quo a b = sgn a * sgn b * (\<bar>a\<bar> div \<bar>b\<bar>)"

text \<open>The verb \<^verbatim>\<open>%d\<close> of \<^verbatim>\<open>fmt.Sprintf\<close>.\<close>

function itoaNat :: "nat \<Rightarrow> string" where
  "itoaNat n = (if n < 10 then [char_of (48 + n)]
                else itoaNat (n div 10) @ [char_of (48 + n mod 10)])"
  by pat_completeness auto
termination
  by (relation "measure id") auto

declare itoaNat.simps [simp del]

definition itoa :: "int \<Rightarrow> string" where
  "itoa i = (if i < 0 then CHR ''-'' # itoaNat (nat (- i)) else itoaNat (nat i))"

text \<open>
  What ends the input loop other than an error of \<^verbatim>\<open>os.Stdin.Read\<close>: the quit key, or
  the run-time panic of an index expression out of range.
\<close>

datatype stop = Quit | IndexOutOfRange

text \<open>
  The answer of the fetch function
  \<^verbatim>\<open>fetcher(cursor, query) (entries, hasMore, total, nextCursor, err)\<close>:
  an error, or a page. \<^verbatim>\<open>total\<close> is a \<^verbatim>\<open>*int\<close>.
\<close>

datatype 'e fetched = FetchErr string | FetchOk "'e list" bool "int option" string

text \<open>
  The goroutines the viewer starts. \<open>BrowsePage\<close> and \<open>SearchPage\<close> are the two bodies
  of \<^verbatim>\<open>loadNextPage\<close>, \<open>SearchFirst q\<close> the body of \<^verbatim>\<open>performSearch(q)\<close>,
  \<open>Reload start end\<close> the body of \<^verbatim>\<open>reloadWithDateFilter(start, end)\<close>, and
  \<open>ClearStatus\<close> the sleeping goroutine that blanks the status line. The closure of
  the last one captures nothing; the string kept with it here is the status line at the
  moment it was started, recorded only so that properties can speak about it.
\<close>

datatype task = BrowsePage | SearchPage | SearchFirst string | Reload string string
  | ClearStatus string

text \<open>
  What the viewer needs to know of an entry to lay it out: the number of lines of its
  indented JSON (\<^verbatim>\<open>len(strings.Split(string(jsonBytes), "\n"))\<close>, which is at least
  one), the length of the longest of these lines, and the length of its collapsed line
  (marker and \<^verbatim>\<open>formatEntry\<close>).
\<close>

record 'e display =
  jsonLines :: "'e \<Rightarrow> int"
  jsonWidth :: "'e \<Rightarrow> int"
  lineWidth :: "'e \<Rightarrow> int"

section \<open>The state of runInteractiveMode\<close>

text \<open>
  One field per variable of \<^verbatim>\<open>runInteractiveMode\<close>, under the variable's name. Two
  fields stand for the world around it: \<open>tty\<close> is what \<^verbatim>\<open>getTerminalSize()\<close> returns
  now (rows, columns: 16-bit values of the ioctl, or the counts that \<^verbatim>\<open>tput\<close> prints),
  and \<open>pending\<close> lists the goroutines started and not yet run.
\<close>

record 'e viewer =
  allEntries :: "'e list"
  currentIdx :: int
  expanded :: "int \<rightharpoonup> bool"
  expandedScrollOffset :: "int \<rightharpoonup> int"
  horizontalScrollOffset :: "int \<rightharpoonup> int"
  loading :: bool
  status :: string
  searchQuery :: string
  searchMatches :: "int list"
  searchActive :: bool
  searchCursor :: string
  searchHasMore :: bool
  searchTotal :: "int option"
  activeStartTime :: string
  activeEndTime :: string
  currentCursor :: string
  hasNextPage :: bool
  totalAvailable :: "int option"
  termHeight :: int
  termWidth :: int
  viewportHeight :: int
  tty :: "int \<times> int"
  pending :: "task list"

definition len :: "'e viewer \<Rightarrow> int" where
  "len s = int (length (allEntries s))"

definition spawn :: "task \<Rightarrow> 'e viewer \<Rightarrow> 'e viewer" where
  "spawn t s = s\<lparr>pending := pending s @ [t]\<rparr>"

section \<open>renderScreen\<close>

text \<open>
  The viewport height for a terminal height, as computed at the start and again in every
  redraw: five rows are reserved for header, status, two rules and footer, and the
  minimum is one row.
\<close>

definition viewportRows :: "int \<Rightarrow> int" where
  "viewportRows th = (let vh = th - 5 in if vh < 1 then 1 else vh)"

text \<open>
  The viewport window of \<^verbatim>\<open>renderScreen\<close>, from the selection, the viewport height
  and the number of entries: \<open>(viewportStart, viewportEnd)\<close>.
\<close>

definition viewportWindow :: "int \<Rightarrow> int \<Rightarrow> int \<Rightarrow> int \<times> int" where
  "viewportWindow idx vh n =
     (let vs0 = idx - quo vh 2;
          vs = (if vs0 < 0 then 0 else vs0);
          ve = vs + vh
      in if ve > n
         then (let ve' = n; vs' = ve' - vh in ((if vs' < 0 then 0 else vs'), ve'))
         else (vs, ve))"

text \<open>
  The row loop of \<^verbatim>\<open>renderScreen\<close>, reduced to what it does to the program's
  variables: for an expanded entry in the window it clamps the vertical scroll offset and
  stores it back; \<open>lns\<close> is \<^verbatim>\<open>linesRendered\<close>. The loop starts at
  \<open>viewportStart\<close>, which is never negative.
\<close>

function renderRows ::
  "('e \<Rightarrow> int) \<Rightarrow> 'e list \<Rightarrow> (int \<rightharpoonup> bool) \<Rightarrow> int \<Rightarrow> int \<Rightarrow> int \<Rightarrow> int
     \<Rightarrow> (int \<rightharpoonup> int) \<Rightarrow> (int \<rightharpoonup> int)" where
  "renderRows jl es ex vh ve i lns off =
     (if i < ve \<and> i < int (length es) \<and> lns < vh
      then (if getB ex i
            then (let n = jl (es ! nat i);
                      so0 = getI off i;
                      so1 = (if so0 < 0 then 0 else so0);
                      so = (if so1 \<ge> n then n - 1 else so1);
                      shown = (if so < n then min (n - so) (vh - lns) else 0);
                      lns1 = lns + shown;
                      lns2 = (if (so > 0 \<or> so + lns1 < n) \<and> lns1 < vh then lns1 + 1 else lns1)
                  in renderRows jl es ex vh ve (i + 1) lns2 (off(i \<mapsto> so)))
            else renderRows jl es ex vh ve (i + 1) (lns + 1) off)
      else off)"
  by pat_completeness auto
termination
  by (relation "measure (\<lambda>(jl, es, ex, vh, ve, i, lns, off). nat (ve - i))") auto

declare renderRows.simps [simp del]

text \<open>
  \<^verbatim>\<open>renderScreen\<close> reads the terminal size again, recomputes the viewport height
  and runs the row loop. The text it prints is not part of the model.
\<close>

definition renderScreen :: "'e display \<Rightarrow> 'e viewer \<Rightarrow> 'e viewer" where
  "renderScreen d s =
     (let th = fst (tty s);
          tw = snd (tty s);
          vh = viewportRows th;
          w = viewportWindow (currentIdx s) vh (len s)
      in s\<lparr>termHeight := th, termWidth := tw, viewportHeight := vh,
            expandedScrollOffset :=
              renderRows (jsonLines d) (allEntries s) (expanded s) vh (snd w) (fst w) 0
                (expandedScrollOffset s)\<rparr>)"

section \<open>Time specifications: parseTimeArg\<close>

text \<open>
  \<^verbatim>\<open>strings.TrimSpace\<close> removes the leading and the trailing white space runes of a
  string. \<open>spaceRunes\<close> lists the UTF-8 encodings of the code points for which
  \<^verbatim>\<open>unicode.IsSpace\<close> holds: the six ASCII ones, U+0085, U+00A0, U+1680,
  U+2000 to U+200A, U+2028, U+2029, U+202F, U+205F and U+3000.
\<close>

definition spaceRunes :: "string list" where
  "spaceRunes =
     [[CHR 0x09], [CHR 0x0A], [CHR 0x0B], [CHR 0x0C], [CHR 0x0D], [CHR 0x20],
      [CHR 0xC2, CHR 0x85], [CHR 0xC2, CHR 0xA0], [CHR 0xE1, CHR 0x9A, CHR 0x80],
      [CHR 0xE2, CHR 0x80, CHR 0x80], [CHR 0xE2, CHR 0x80, CHR 0x81],
      [CHR 0xE2, CHR 0x80, CHR 0x82], [CHR 0xE2, CHR 0x80, CHR 0x83],
      [CHR 0xE2, CHR 0x80, CHR 0x84], [CHR 0xE2, CHR 0x80, CHR 0x85],
      [CHR 0xE2, CHR 0x80, CHR 0x86], [CHR 0xE2, CHR 0x80, CHR 0x87],
      [CHR 0xE2, CHR 0x80, CHR 0x88], [CHR 0xE2, CHR 0x80, CHR 0x89],
      [CHR 0xE2, CHR 0x80, CHR 0x8A], [CHR 0xE2, CHR 0x80, CHR 0xA8],
      [CHR 0xE2, CHR 0x80, CHR 0xA9], [CHR 0xE2, CHR 0x80, CHR 0xAF],
      [CHR 0xE2, CHR 0x81, CHR 0x9F], [CHR 0xE3, CHR 0x80, CHR 0x80]]"

text \<open>The length of the rune of \<open>rs\<close> that \<open>s\<close> starts with; 0 when there is none.\<close>

definition runeLen :: "string list \<Rightarrow> string \<Rightarrow> nat" where
  "runeLen rs s =
     (case find (\<lambda>w. take (length w) s = w) rs of None \<Rightarrow> 0 | Some w \<Rightarrow> length w)"

function stripRunes :: "string list \<Rightarrow> string \<Rightarrow> string" where
  "stripRunes rs s =
     (if runeLen rs s = 0 \<or> s = [] then s else stripRunes rs (drop (runeLen rs s) s))"
  by pat_completeness auto
termination
  by (relation "measure (\<lambda>(rs, s). length s)") auto

declare stripRunes.simps [simp del]

definition TrimSpace :: "string \<Rightarrow> string" where
  "TrimSpace s = rev (stripRunes (map rev spaceRunes) (rev (stripRunes spaceRunes s)))"

text \<open>
  \<^verbatim>\<open>strings.EqualFold\<close> compares under Unicode simple case folding. On letters whose
  only other case is the ASCII one (every letter of \<^verbatim>\<open>"now"\<close> is one) this is
  equality after lowering the ASCII capitals.
\<close>

definition lowerASCII :: "char \<Rightarrow> char" where
  "lowerASCII c =
     (let n = (of_char c :: nat) in if 65 \<le> n \<and> n \<le> 90 then char_of (n + 32) else c)"

definition EqualFold :: "string \<Rightarrow> string \<Rightarrow> bool" where
  "EqualFold s t = (map lowerASCII s = map lowerASCII t)"

definition HasPrefix :: "string \<Rightarrow> string \<Rightarrow> bool" where
  "HasPrefix s p = (length s \<ge> length p \<and> take (length p) s = p)"

text \<open>
  The package \<^verbatim>\<open>time\<close>, the clock and \<^verbatim>\<open>%q\<close> are not part of the client; they are
  taken as they answer. An error is its text, a duration and an instant are integers.
  \<^item> \<open>nowUTC\<close>: \<^verbatim>\<open>time.Now().UTC().Format(time.RFC3339)\<close>;
  \<^item> \<open>ParseDuration\<close>: \<^verbatim>\<open>time.ParseDuration\<close>;
  \<^item> \<open>nowAdd dur\<close>: \<^verbatim>\<open>time.Now().Add(dur).UTC().Format(time.RFC3339)\<close>;
  \<^item> \<open>ParseInLocation layout v\<close>: \<^verbatim>\<open>time.ParseInLocation(layout, v, time.Local)\<close>;
  \<^item> \<open>formatUTC t\<close>: \<^verbatim>\<open>t.UTC().Format(time.RFC3339)\<close>;
  \<^item> \<open>parseUnixMilli v\<close>: \<^verbatim>\<open>time.Parse(time.RFC3339, v)\<close>, then \<^verbatim>\<open>UnixMilli()\<close>;
  \<^item> \<open>quote\<close>: the verb \<^verbatim>\<open>%q\<close>.
\<close>

record timelib =
  nowUTC :: string
  ParseDuration :: "string \<Rightarrow> string + int"
  nowAdd :: "int \<Rightarrow> string"
  ParseInLocation :: "string \<Rightarrow> string \<Rightarrow> string + int"
  formatUTC :: "int \<Rightarrow> string"
  parseUnixMilli :: "string \<Rightarrow> string + int"
  quote :: "string \<Rightarrow> string"

definition RFC3339 :: string where
  "RFC3339 = ''2006-01-02T15:04:05Z07:00''"

definition layouts :: "string list" where
  "layouts = [RFC3339, ''2006-01-02 15:04:05'', ''2006-01-02 15:04'', ''2006-01-02'']"

text \<open>The loop over the layouts: the first layout that parses gives the result.\<close>

fun tryLayouts :: "timelib \<Rightarrow> string list \<Rightarrow> string \<Rightarrow> string option" where
  "tryLayouts lib [] v = None"
| "tryLayouts lib (layout # ls) v =
     (case ParseInLocation lib layout v of
        Inr t \<Rightarrow> Some (formatUTC lib t)
      | Inl err \<Rightarrow> tryLayouts lib ls v)"

text \<open>\<^verbatim>\<open>parseTimeArg\<close>: \<open>Inl\<close> is the error, \<open>Inr\<close> the RFC3339 text.\<close>

definition parseTimeArg :: "timelib \<Rightarrow> string \<Rightarrow> string + string" where
  "parseTimeArg lib value0 =
     (let v = TrimSpace value0 in
      if v = [] then Inr []
      else if EqualFold v ''now'' then Inr (nowUTC lib)
      else if HasPrefix v ''-'' then
        (case ParseDuration lib v of
           Inl err \<Rightarrow> Inl (''invalid relative duration '' @ quote lib v @ '': '' @ err)
         | Inr dur \<Rightarrow> Inr (nowAdd lib dur))
      else
        (case tryLayouts lib layouts v of
           Some r \<Rightarrow> Inr r
         | None \<Rightarrow> Inl (''could not parse time value '' @ quote lib v)))"

section \<open>Background loading\<close>

text \<open>
  \<^verbatim>\<open>loadNextPage\<close>: in search mode the search stream governs, otherwise the browse
  stream. It returns at once when a load is flagged, the stream has no more pages or its
  cursor is empty; otherwise it flags the load, redraws and starts the fetch.
\<close>

definition loadNextPage :: "'e display \<Rightarrow> 'e viewer \<Rightarrow> 'e viewer" where
  "loadNextPage d s =
     (if searchActive s then
        (if loading s \<or> \<not> searchHasMore s \<or> searchCursor s = [] then s
         else spawn SearchPage
                (renderScreen d (s\<lparr>loading := True, status := ''Loading more search results...''\<rparr>)))
      else
        (if loading s \<or> \<not> hasNextPage s \<or> currentCursor s = [] then s
         else spawn BrowsePage
                (renderScreen d (s\<lparr>loading := True, status := ''Loading more...''\<rparr>))))"

text \<open>
  The goroutine of the browse branch, run with the answer \<open>r\<close> of
  \<^verbatim>\<open>fetcher(currentCursor, "")\<close>. It ends by starting the goroutine that clears the
  status two seconds later.
\<close>

definition browsePageDone :: "'e display \<Rightarrow> 'e fetched \<Rightarrow> 'e viewer \<Rightarrow> 'e viewer" where
  "browsePageDone d r s =
     (let s1 = (case r of
                  FetchErr err \<Rightarrow> s\<lparr>status := ''Error loading: '' @ err\<rparr>
                | FetchOk newEntries more' total' cursor \<Rightarrow>
                    s\<lparr>allEntries := allEntries s @ newEntries,
                      hasNextPage := more',
                      totalAvailable := total',
                      currentCursor := cursor,
                      status := ''Loaded '' @ itoa (int (length newEntries)) @ '' new entries''\<rparr>);
          s2 = renderScreen d (s1\<lparr>loading := False\<rparr>)
      in spawn (ClearStatus (status s2)) s2)"

text \<open>
  The goroutine of the search branch, run with the answer \<open>r\<close> of
  \<^verbatim>\<open>fetcher(searchCursor, searchQuery)\<close>.
\<close>

definition searchPageDone :: "'e display \<Rightarrow> 'e fetched \<Rightarrow> 'e viewer \<Rightarrow> 'e viewer" where
  "searchPageDone d r s =
     (let s1 = (case r of
                  FetchErr err \<Rightarrow> s\<lparr>status := ''Error loading: '' @ err\<rparr>
                | FetchOk newEntries more' total' cursor \<Rightarrow>
                    s\<lparr>allEntries := allEntries s @ newEntries,
                      searchHasMore := more',
                      searchTotal := total',
                      searchCursor := cursor,
                      searchMatches := searchMatches s @
                        map (\<lambda>i. int (length (searchMatches s)) + int i) [0..<length newEntries],
                      status := ''Loaded '' @ itoa (int (length newEntries)) @ '' more results'' @
                        (case total' of None \<Rightarrow> [] | Some t \<Rightarrow> '' ('' @ itoa t @ '' total)'')\<rparr>);
          s2 = renderScreen d (s1\<lparr>loading := False\<rparr>)
      in spawn (ClearStatus (status s2)) s2)"

text \<open>
  The sleeping goroutine, when its sleep is over:
  \<^verbatim>\<open>status = ""; renderScreen()\<close>.
\<close>

definition clearStatus :: "'e display \<Rightarrow> 'e viewer \<Rightarrow> 'e viewer" where
  "clearStatus d s = renderScreen d (s\<lparr>status := []\<rparr>)"

section \<open>Search\<close>

text \<open>The apostrophe of the status lines that quote the query.\<close>

definition apos :: string where
  "apos = [CHR 0x27]"

definition performSearch :: "'e display \<Rightarrow> string \<Rightarrow> 'e viewer \<Rightarrow> 'e viewer" where
  "performSearch d query s =
     (if query = [] then
        renderScreen d
          (s\<lparr>searchQuery := [], searchActive := False, searchMatches := [], currentIdx := 0,
             status := ''Search cleared - back to normal mode''\<rparr>)
      else
        spawn (SearchFirst query)
          (renderScreen d
             (s\<lparr>searchQuery := query, searchActive := True, searchCursor := [],
                currentIdx := 0, loading := True,
                status := ''Searching for '' @ apos @ query @ apos @ ''...''\<rparr>)))"

text \<open>
  The goroutine of \<^verbatim>\<open>performSearch(query)\<close>, run with the answer of
  \<^verbatim>\<open>fetcher("", query)\<close>. It starts no goroutine to clear the status.
\<close>

definition searchDone :: "'e display \<Rightarrow> string \<Rightarrow> 'e fetched \<Rightarrow> 'e viewer \<Rightarrow> 'e viewer" where
  "searchDone d query r s =
     (case r of
        FetchErr err \<Rightarrow> renderScreen d (s\<lparr>status := ''Search error: '' @ err, loading := False\<rparr>)
      | FetchOk results hasMore total' cursor \<Rightarrow>
          (let s1 = s\<lparr>allEntries := results, searchHasMore := hasMore, searchTotal := total',
                      searchCursor := cursor, loading := False\<rparr>;
               n = int (length results);
               moreMsg = (if hasMore then '' - scroll down to load more'' else []);
               totalMsg = (case total' of
                             Some t \<Rightarrow> (if t > 0 then itoa n @ '' of '' @ itoa t
                                        else if hasMore then itoa n @ ''+'' else itoa n)
                           | None \<Rightarrow> (if hasMore then itoa n @ ''+'' else itoa n))
           in renderScreen d
                (if n > 0
                 then s1\<lparr>searchMatches := map int [0..<length results],
                         status := ''Found '' @ totalMsg @ '' results'' @ moreMsg @ '' - Esc to clear''\<rparr>
                 else s1\<lparr>searchMatches := [],
                         status := ''No matches for '' @ apos @ query @ apos @ '' (Esc: clear)''\<rparr>)))"

section \<open>Date filter\<close>

definition reloadWithDateFilter :: "'e display \<Rightarrow> string \<Rightarrow> string \<Rightarrow> 'e viewer \<Rightarrow> 'e viewer" where
  "reloadWithDateFilter d start end' s =
     spawn (Reload start end')
       (renderScreen d (s\<lparr>loading := True, status := ''Loading logs with date filter...''\<rparr>))"

text \<open>
  The time bounds the goroutine adds to the copy of \<^verbatim>\<open>ctx.BaseQuery\<close>: the parameters
  set, in order, or the status line of the step that failed.
\<close>

definition dateQuery :: "timelib \<Rightarrow> string \<Rightarrow> string \<Rightarrow> string + (string \<times> int) list" where
  "dateQuery lib start end' =
     (case (if start \<noteq> [] then
              (case parseTimeArg lib start of
                 Inl err \<Rightarrow> Inl (''Invalid start time: '' @ err)
               | Inr parsed \<Rightarrow>
                   (case parseUnixMilli lib parsed of
                      Inl err \<Rightarrow> Inl (''Failed to parse start time: '' @ err)
                    | Inr t \<Rightarrow> Inr [(''start_time'', t)]))
            else Inr []) of
        Inl msg \<Rightarrow> Inl msg
      | Inr q1 \<Rightarrow>
          (if end' \<noteq> [] then
             (case parseTimeArg lib end' of
                Inl err \<Rightarrow> Inl (''Invalid end time: '' @ err)
              | Inr parsed \<Rightarrow>
                  (case parseUnixMilli lib parsed of
                     Inl err \<Rightarrow> Inl (''Failed to parse end time: '' @ err)
                   | Inr t \<Rightarrow> Inr (q1 @ [(''end_time'', t)])))
           else Inr q1))"

text \<open>
  What the request of the goroutine comes to: an error of \<^verbatim>\<open>NewRequestWithContext\<close> or
  \<^verbatim>\<open>Client.Do\<close>, a status outside 2xx (\<^verbatim>\<open>resp.Status\<close>), a body that does not
  decode, or the decoded \<^verbatim>\<open>logResponse\<close>: \<^verbatim>\<open>Data\<close>, \<^verbatim>\<open>Meta.HasMore\<close>,
  \<^verbatim>\<open>Meta.Total\<close>, \<^verbatim>\<open>Meta.NextCursor\<close>.
\<close>

datatype 'e reply = RequestError string | BadStatus string | ParseError string
  | Payload "'e list" bool "int option" "string option"

text \<open>
  The goroutine of \<^verbatim>\<open>reloadWithDateFilter(start, end)\<close>; \<open>http\<close> answers the request
  made with the time bounds. Only the successful path starts the goroutine that clears
  the status three seconds later.
\<close>

definition reloadDone ::
  "'e display \<Rightarrow> timelib \<Rightarrow> ((string \<times> int) list \<Rightarrow> 'e reply) \<Rightarrow> string \<Rightarrow> string
     \<Rightarrow> 'e viewer \<Rightarrow> 'e viewer" where
  "reloadDone d lib http start end' s =
     (case dateQuery lib start end' of
        Inl msg \<Rightarrow> renderScreen d (s\<lparr>status := msg, loading := False\<rparr>)
      | Inr q \<Rightarrow>
          (case http q of
             RequestError err \<Rightarrow>
               renderScreen d (s\<lparr>status := ''Request error: '' @ err, loading := False\<rparr>)
           | BadStatus st \<Rightarrow>
               renderScreen d (s\<lparr>status := ''Request failed: '' @ st, loading := False\<rparr>)
           | ParseError err \<Rightarrow>
               renderScreen d (s\<lparr>status := ''Parse error: '' @ err, loading := False\<rparr>)
           | Payload data more' total' nextCursor \<Rightarrow>
               (let s1 = s\<lparr>allEntries := data,
                           hasNextPage := more',
                           totalAvailable := total',
                           currentCursor := (case nextCursor of Some c \<Rightarrow> c | None \<Rightarrow> []),
                           currentIdx := 0,
                           expanded := Map.empty,
                           expandedScrollOffset := Map.empty,
                           searchActive := False,
                           searchQuery := [],
                           activeStartTime := start,
                           activeEndTime := end',
                           loading := False,
                           status :=
                             (if length data = 0
                              then ''No logs found for the specified date range''
                              else ''Loaded '' @ itoa (int (length data)) @ '' entries'' @
                                   (if start \<noteq> [] \<or> end' \<noteq> [] then '' (filtered)'' else []))\<rparr>;
                    s2 = renderScreen d s1
                in spawn (ClearStatus (status s2)) s2)))"

section \<open>Key handlers\<close>

text \<open>
  Moving the selection by one, as the four copies in the handlers of the keys down and up
  do: the new row gets a horizontal offset if it has none, the old row loses its own.
\<close>

definition moveSelection :: "int \<Rightarrow> 'e viewer \<Rightarrow> 'e viewer" where
  "moveSelection newIdx s =
     (let oldIdx = currentIdx s;
          h = horizontalScrollOffset s;
          h1 = (if h newIdx = None then h(newIdx \<mapsto> 0) else h)
      in s\<lparr>currentIdx := newIdx, horizontalScrollOffset := h1(oldIdx := None)\<rparr>)"

text \<open>The test after a move down by one: within 5 entries of the end.\<close>

definition autoLoad :: "'e display \<Rightarrow> 'e viewer \<Rightarrow> 'e viewer" where
  "autoLoad d s =
     (if currentIdx s \<ge> len s - 5 \<and> hasNextPage s \<and> \<not> loading s then loadNextPage d s else s)"

text \<open>Key \<^verbatim>\<open>j\<close> or arrow down. \<^verbatim>\<open>allEntries[currentIdx]\<close> is read when the entry is
  expanded.\<close>

definition keyDown :: "'e display \<Rightarrow> 'e viewer \<Rightarrow> stop + 'e viewer" where
  "keyDown d s =
     (let i = currentIdx s in
      if getB (expanded s) i then
        (if i < 0 \<or> i \<ge> len s then Inl IndexOutOfRange
         else if getI (expandedScrollOffset s) i < jsonLines d (allEntries s ! nat i) - 1 then
           Inr (renderScreen d
                  (s\<lparr>expandedScrollOffset :=
                       (expandedScrollOffset s)(i \<mapsto> getI (expandedScrollOffset s) i + 1)\<rparr>))
         else if i < len s - 1 then
           Inr (renderScreen d (autoLoad d (moveSelection (i + 1) s)))
         else Inr s)
      else
        (if i < len s - 1 then
           Inr (renderScreen d (autoLoad d (moveSelection (i + 1) s)))
         else Inr s))"

text \<open>Key \<^verbatim>\<open>k\<close> or arrow up.\<close>

definition keyUp :: "'e display \<Rightarrow> 'e viewer \<Rightarrow> 'e viewer" where
  "keyUp d s =
     (let i = currentIdx s in
      if getB (expanded s) i then
        (if getI (expandedScrollOffset s) i > 0 then
           renderScreen d
             (s\<lparr>expandedScrollOffset :=
                  (expandedScrollOffset s)(i \<mapsto> getI (expandedScrollOffset s) i - 1)\<rparr>)
         else if i > 0 then renderScreen d (moveSelection (i - 1) s)
         else s)
      else
        (if i > 0 then renderScreen d (moveSelection (i - 1) s) else s))"

text \<open>Arrow right: both branches read \<^verbatim>\<open>allEntries[currentIdx]\<close>.\<close>

definition keyRight :: "'e display \<Rightarrow> 'e viewer \<Rightarrow> stop + 'e viewer" where
  "keyRight d s =
     (let i = currentIdx s in
      if i < 0 \<or> i \<ge> len s then Inl IndexOutOfRange
      else
        (let e = allEntries s ! nat i;
             lineLen = (if getB (expanded s) i then jsonWidth d e else lineWidth d e);
             maxOffset0 = lineLen - termWidth s;
             maxOffset = (if maxOffset0 < 0 then 0 else maxOffset0);
             newOffset0 = getI (horizontalScrollOffset s) i + 10;
             newOffset = (if newOffset0 > maxOffset then maxOffset else newOffset0)
         in Inr (renderScreen d
                   (s\<lparr>horizontalScrollOffset := (horizontalScrollOffset s)(i \<mapsto> newOffset)\<rparr>))))"

text \<open>Arrow left.\<close>

definition keyLeft :: "'e display \<Rightarrow> 'e viewer \<Rightarrow> 'e viewer" where
  "keyLeft d s =
     (let i = currentIdx s;
          v = getI (horizontalScrollOffset s) i - 10
      in renderScreen d
           (s\<lparr>horizontalScrollOffset :=
                (horizontalScrollOffset s)(i \<mapsto> (if v < 0 then 0 else v))\<rparr>))"

text \<open>
  Key \<^verbatim>\<open>d\<close> and PageDown. The test for loading more comes after the redraw, which has
  read the viewport height again.
\<close>

definition pageDown :: "'e display \<Rightarrow> 'e viewer \<Rightarrow> 'e viewer" where
  "pageDown d s =
     (let newIdx0 = currentIdx s + viewportHeight s;
          newIdx = (if newIdx0 \<ge> len s then len s - 1 else newIdx0)
      in if newIdx \<noteq> currentIdx s then
           (let s1 = renderScreen d (s\<lparr>currentIdx := newIdx\<rparr>) in
            if searchActive s1 then
              (if currentIdx s1 \<ge> len s1 - viewportHeight s1 \<and> searchHasMore s1 \<and> \<not> loading s1
               then loadNextPage d s1 else s1)
            else
              (if currentIdx s1 \<ge> len s1 - viewportHeight s1 \<and> hasNextPage s1 \<and> \<not> loading s1
               then loadNextPage d s1 else s1))
         else s)"

text \<open>Key \<^verbatim>\<open>u\<close> and PageUp.\<close>

definition pageUp :: "'e display \<Rightarrow> 'e viewer \<Rightarrow> 'e viewer" where
  "pageUp d s =
     (let newIdx0 = currentIdx s - viewportHeight s;
          newIdx = (if newIdx0 < 0 then 0 else newIdx0)
      in if newIdx \<noteq> currentIdx s then renderScreen d (s\<lparr>currentIdx := newIdx\<rparr>) else s)"

text \<open>Enter or space: toggle the expansion of the selected entry.\<close>

definition toggle :: "'e display \<Rightarrow> 'e viewer \<Rightarrow> 'e viewer" where
  "toggle d s =
     (let i = currentIdx s;
          s1 = s\<lparr>expanded := (expanded s)(i \<mapsto> \<not> getB (expanded s) i)\<rparr>
      in renderScreen d
           (if \<not> getB (expanded s1) i
            then s1\<lparr>expandedScrollOffset := (expandedScrollOffset s1)(i := None)\<rparr>
            else s1\<lparr>expandedScrollOffset := (expandedScrollOffset s1)(i \<mapsto> 0)\<rparr>))"

section \<open>The input loop\<close>

text \<open>
  One turn of the loop on the bytes \<open>input\<close> that \<^verbatim>\<open>os.Stdin.Read\<close> returned (at most
  six), the cases of the \<^verbatim>\<open>switch\<close> in their order. \<open>line1\<close> and \<open>line2\<close> are what the
  line scanners of the two prompts read: \<open>None\<close> when \<^verbatim>\<open>Scan()\<close> is false. The escape
  byte is 27, \<^verbatim>\<open>[\<close> is 91.
\<close>

definition handleInput ::
  "'e display \<Rightarrow> string \<Rightarrow> string option \<Rightarrow> string option \<Rightarrow> 'e viewer \<Rightarrow> stop + 'e viewer" where
  "handleInput d input line1 line2 s =
     (let n = length input;
          b = (\<lambda>k. (of_char (input ! k) :: nat))
      in if n = 0 then Inl IndexOutOfRange
         else if input ! 0 = CHR ''q'' \<or> input ! 0 = CHR ''Q'' then Inl Quit
         else if b 0 = 27 \<and> n = 1 then
           Inr (if searchQuery s \<noteq> [] then renderScreen d (performSearch d [] s) else s)
         else if input ! 0 = CHR ''/'' then
           Inr (renderScreen d
                  (case line1 of Some query \<Rightarrow> performSearch d query s | None \<Rightarrow> s))
         else if input ! 0 = CHR ''f'' \<or> input ! 0 = CHR ''F'' then
           Inr (reloadWithDateFilter d
                  (case line1 of Some l \<Rightarrow> TrimSpace l | None \<Rightarrow> [])
                  (case line2 of Some l \<Rightarrow> TrimSpace l | None \<Rightarrow> []) s)
         else if input ! 0 = CHR ''n'' then
           Inr (if searchQuery s \<noteq> [] \<and> currentIdx s < len s - 1
                then renderScreen d (s\<lparr>currentIdx := currentIdx s + 1\<rparr>) else s)
         else if input ! 0 = CHR ''N'' then
           Inr (if searchQuery s \<noteq> [] \<and> currentIdx s > 0
                then renderScreen d (s\<lparr>currentIdx := currentIdx s - 1\<rparr>) else s)
         else if input ! 0 = CHR ''j'' \<or> (n = 3 \<and> b 0 = 27 \<and> b 1 = 91 \<and> b 2 = 66) then
           keyDown d s
         else if input ! 0 = CHR ''k'' \<or> (n = 3 \<and> b 0 = 27 \<and> b 1 = 91 \<and> b 2 = 65) then
           Inr (keyUp d s)
         else if n = 3 \<and> b 0 = 27 \<and> b 1 = 91 \<and> b 2 = 67 then keyRight d s
         else if n = 3 \<and> b 0 = 27 \<and> b 1 = 91 \<and> b 2 = 68 then Inr (keyLeft d s)
         else if input ! 0 = CHR ''d'' \<or> input ! 0 = CHR ''D'' then Inr (pageDown d s)
         else if input ! 0 = CHR ''u'' \<or> input ! 0 = CHR ''U'' then Inr (pageUp d s)
         else if input ! 0 = CHR ''g'' \<or> input ! 0 = CHR ''G'' then
           Inr (renderScreen d
                  (if input ! 0 = CHR ''g'' then s\<lparr>currentIdx := 0\<rparr>
                   else s\<lparr>currentIdx := len s - 1\<rparr>))
         else if n \<ge> 4 \<and> b 0 = 27 \<and> b 1 = 91 then
           (if n \<ge> 4 \<and> b 2 = 53 \<and> b 3 = 126 then Inr (pageUp d s)
            else if n \<ge> 4 \<and> b 2 = 54 \<and> b 3 = 126 then Inr (pageDown d s)
            else if b 2 = 72 then Inr (renderScreen d (s\<lparr>currentIdx := 0\<rparr>))
            else if b 2 = 70 then Inr (renderScreen d (s\<lparr>currentIdx := len s - 1\<rparr>))
            else Inr s)
         else if b 0 = 13 \<or> b 0 = 10 \<or> b 0 = 32 then Inr (toggle d s)
         else Inr s)"

text \<open>
  The same turn of the loop in two parts, for the proofs: which case of the
  \<^verbatim>\<open>switch\<close> the bytes select, and what that case does. \<open>NoInput\<close> is a read of no
  bytes, \<open>OtherKey\<close> any input that no case matches.
\<close>

datatype key = NoInput | QuitKey | EscapeKey | SearchKey | FilterKey | NextKey | PrevKey
  | DownKey | UpKey | RightKey | LeftKey | PageDownKey | PageUpKey | FirstKey | LastKey
  | ToggleKey | OtherKey

definition decode :: "string \<Rightarrow> key" where
  "decode input =
     (let n = length input;
          b = (\<lambda>k. (of_char (input ! k) :: nat))
      in if n = 0 then NoInput
         else if input ! 0 = CHR ''q'' \<or> input ! 0 = CHR ''Q'' then QuitKey
         else if b 0 = 27 \<and> n = 1 then EscapeKey
         else if input ! 0 = CHR ''/'' then SearchKey
         else if input ! 0 = CHR ''f'' \<or> input ! 0 = CHR ''F'' then FilterKey
         else if input ! 0 = CHR ''n'' then NextKey
         else if input ! 0 = CHR ''N'' then PrevKey
         else if input ! 0 = CHR ''j'' \<or> (n = 3 \<and> b 0 = 27 \<and> b 1 = 91 \<and> b 2 = 66) then DownKey
         else if input ! 0 = CHR ''k'' \<or> (n = 3 \<and> b 0 = 27 \<and> b 1 = 91 \<and> b 2 = 65) then UpKey
         else if n = 3 \<and> b 0 = 27 \<and> b 1 = 91 \<and> b 2 = 67 then RightKey
         else if n = 3 \<and> b 0 = 27 \<and> b 1 = 91 \<and> b 2 = 68 then LeftKey
         else if input ! 0 = CHR ''d'' \<or> input ! 0 = CHR ''D'' then PageDownKey
         else if input ! 0 = CHR ''u'' \<or> input ! 0 = CHR ''U'' then PageUpKey
         else if input ! 0 = CHR ''g'' \<or> input ! 0 = CHR ''G'' then
           (if input ! 0 = CHR ''g'' then FirstKey else LastKey)
         else if n \<ge> 4 \<and> b 0 = 27 \<and> b 1 = 91 then
           (if n \<ge> 4 \<and> b 2 = 53 \<and> b 3 = 126 then PageUpKey
            else if n \<ge> 4 \<and> b 2 = 54 \<and> b 3 = 126 then PageDownKey
            else if b 2 = 72 then FirstKey
            else if b 2 = 70 then LastKey
            else OtherKey)
         else if b 0 = 13 \<or> b 0 = 10 \<or> b 0 = 32 then ToggleKey
         else OtherKey)"

fun act ::
  "'e display \<Rightarrow> key \<Rightarrow> string option \<Rightarrow> string option \<Rightarrow> 'e viewer \<Rightarrow> stop + 'e viewer" where
  "act d NoInput line1 line2 s = Inl IndexOutOfRange"
| "act d QuitKey line1 line2 s = Inl Quit"
| "act d EscapeKey line1 line2 s =
     Inr (if searchQuery s \<noteq> [] then renderScreen d (performSearch d [] s) else s)"
| "act d SearchKey line1 line2 s =
     Inr (renderScreen d (case line1 of Some query \<Rightarrow> performSearch d query s | None \<Rightarrow> s))"
| "act d FilterKey line1 line2 s =
     Inr (reloadWithDateFilter d
            (case line1 of Some l \<Rightarrow> TrimSpace l | None \<Rightarrow> [])
            (case line2 of Some l \<Rightarrow> TrimSpace l | None \<Rightarrow> []) s)"
| "act d NextKey line1 line2 s =
     Inr (if searchQuery s \<noteq> [] \<and> currentIdx s < len s - 1
          then renderScreen d (s\<lparr>currentIdx := currentIdx s + 1\<rparr>) else s)"
| "act d PrevKey line1 line2 s =
     Inr (if searchQuery s \<noteq> [] \<and> currentIdx s > 0
          then renderScreen d (s\<lparr>currentIdx := currentIdx s - 1\<rparr>) else s)"
| "act d DownKey line1 line2 s = keyDown d s"
| "act d UpKey line1 line2 s = Inr (keyUp d s)"
| "act d RightKey line1 line2 s = keyRight d s"
| "act d LeftKey line1 line2 s = Inr (keyLeft d s)"
| "act d PageDownKey line1 line2 s = Inr (pageDown d s)"
| "act d PageUpKey line1 line2 s = Inr (pageUp d s)"
| "act d FirstKey line1 line2 s = Inr (renderScreen d (s\<lparr>currentIdx := 0\<rparr>))"
| "act d LastKey line1 line2 s = Inr (renderScreen d (s\<lparr>currentIdx := len s - 1\<rparr>))"
| "act d ToggleKey line1 line2 s = Inr (toggle d s)"
| "act d OtherKey line1 line2 s = Inr s"

section \<open>The viewer as a transition system\<close>

text \<open>
  \<^verbatim>\<open>runInteractiveMode\<close> up to its first redraw: it returns at once on an empty first
  page. \<open>sz\<close> is the terminal size.
\<close>

definition runInteractiveMode ::
  "'e display \<Rightarrow> int \<times> int \<Rightarrow> 'e list \<Rightarrow> bool \<Rightarrow> int option \<Rightarrow> string \<Rightarrow> 'e viewer option" where
  "runInteractiveMode d sz entries hasMore totalCount nextCursor =
     (if length entries = 0 then None
      else Some (renderScreen d
        \<lparr>allEntries = entries, currentIdx = 0, expanded = Map.empty,
         expandedScrollOffset = Map.empty, horizontalScrollOffset = Map.empty,
         loading = False, status = [], searchQuery = [], searchMatches = [],
         searchActive = False, searchCursor = [], searchHasMore = False, searchTotal = None,
         activeStartTime = [], activeEndTime = [],
         currentCursor = nextCursor, hasNextPage = hasMore, totalAvailable = totalCount,
         termHeight = fst sz, termWidth = snd sz,
         viewportHeight = viewportRows (fst sz),
         tty = sz, pending = []\<rparr>))"

text \<open>
  What can happen next: the loop reads input; the terminal changes its size; the resize
  signal redraws; a goroutine that was started runs its body with what the world answers.
  The body of each goroutine after its request is taken as one step.
\<close>

datatype 'e event =
    Input string "string option" "string option"
  | Resize "int \<times> int"
  | Winch
  | BrowseFetched "'e fetched"
  | SearchPageFetched "'e fetched"
  | SearchFetched string "'e fetched"
  | Reloaded string string timelib "(string \<times> int) list \<Rightarrow> 'e reply"
  | Timer string

text \<open>A goroutine runs once: it must have been started, and leaves the list.\<close>

definition finish :: "task \<Rightarrow> 'e viewer \<Rightarrow> 'e viewer option" where
  "finish t s =
     (if t \<in> set (pending s) then Some (s\<lparr>pending := remove1 t (pending s)\<rparr>) else None)"

text \<open>\<open>None\<close>: the event cannot happen in this state, or the program ends with it.\<close>

fun step :: "'e display \<Rightarrow> 'e event \<Rightarrow> 'e viewer \<Rightarrow> 'e viewer option" where
  "step d (Input input line1 line2) s =
     (case handleInput d input line1 line2 s of Inl x \<Rightarrow> None | Inr s' \<Rightarrow> Some s')"
| "step d (Resize sz) s = Some (s\<lparr>tty := sz\<rparr>)"
| "step d Winch s = Some (renderScreen d s)"
| "step d (BrowseFetched r) s = map_option (browsePageDone d r) (finish BrowsePage s)"
| "step d (SearchPageFetched r) s = map_option (searchPageDone d r) (finish SearchPage s)"
| "step d (SearchFetched q r) s = map_option (searchDone d q r) (finish (SearchFirst q) s)"
| "step d (Reloaded start end' lib http) s =
     map_option (reloadDone d lib http start end') (finish (Reload start end') s)"
| "step d (Timer m) s = map_option (clearStatus d) (finish (ClearStatus m) s)"

fun run :: "'e display \<Rightarrow> 'e event list \<Rightarrow> 'e viewer \<Rightarrow> 'e viewer option" where
  "run d [] s = Some s"
| "run d (ev # evs) s = (case step d ev s of None \<Rightarrow> None | Some s' \<Rightarrow> run d evs s')"

text \<open>The state after a session: the start, then the events one after the other.\<close>

definition session ::
  "'e display \<Rightarrow> int \<times> int \<Rightarrow> 'e list \<Rightarrow> bool \<Rightarrow> int option \<Rightarrow> string \<Rightarrow> 'e event list
     \<Rightarrow> 'e viewer option" where
  "session d sz entries hasMore totalCount nextCursor evs =
     (case runInteractiveMode d sz entries hasMore totalCount nextCursor of
        None \<Rightarrow> None
      | Some s \<Rightarrow> run d evs s)"

text \<open>The states the viewer can be in.\<close>

inductive reachable :: "'e display \<Rightarrow> 'e viewer \<Rightarrow> bool" for d :: "'e display" where
  initial: "runInteractiveMode d sz entries hasMore totalCount nextCursor = Some s \<Longrightarrow> reachable d s"
| after: "reachable d s \<Longrightarrow> step d ev s = Some s' \<Longrightarrow> reachable d s'"

section \<open>Vocabulary of the properties\<close>

text \<open>The page fetches among the goroutines started and not yet run.\<close>

definition pages :: "task list \<Rightarrow> task list" where
  "pages ts = filter (\<lambda>t. t = BrowsePage \<or> t = SearchPage) ts"

text \<open>Every index with a vertical scroll offset is the index of an expanded entry.\<close>

definition scrollInv :: "'e viewer \<Rightarrow> bool" where
  "scrollInv s = (\<forall>i. expandedScrollOffset s i \<noteq> None \<longrightarrow> getB (expanded s) i)"

text \<open>The viewport has at least one row.\<close>

definition heightInv :: "'e viewer \<Rightarrow> bool" where
  "heightInv s = (1 \<le> viewportHeight s)"

text \<open>The search flag is set exactly when there is a query.\<close>

definition searchInv :: "'e viewer \<Rightarrow> bool" where
  "searchInv s = (searchActive s = (searchQuery s \<noteq> []))"



section \<open>White space\<close>


text \<open>No rune of \<open>rs\<close> is empty or begins another one.\<close>

definition prefixFree :: "string list \<Rightarrow> bool" where
  "prefixFree rs =
     list_all (\<lambda>w. w \<noteq> [] \<and> list_all (\<lambda>w'. take (length w) w' = w \<longrightarrow> w = w') rs) rs"


section \<open>A sample session\<close>

text \<open>
  Entries are their raw lines here. Every entry has three lines of JSON, the longest of
  40 bytes, and a collapsed line of 200 bytes; the terminal has 24 rows and 80 columns,
  so the viewport has 19 rows.
\<close>

definition exDisplay :: "string display" where
  "exDisplay = \<lparr>jsonLines = (\<lambda>e. 3), jsonWidth = (\<lambda>e. 40), lineWidth = (\<lambda>e. 200)\<rparr>"

text \<open>The state after the first redraw, for a first page of three entries.\<close>

definition exViewer :: "string viewer" where
  "exViewer =
     \<lparr>allEntries = [''a'', ''b'', ''c''], currentIdx = 0, expanded = Map.empty,
      expandedScrollOffset = Map.empty, horizontalScrollOffset = Map.empty,
      loading = False, status = [], searchQuery = [], searchMatches = [],
      searchActive = False, searchCursor = [], searchHasMore = False, searchTotal = None,
      activeStartTime = [], activeEndTime = [],
      currentCursor = ''c1'', hasNextPage = True, totalAvailable = None,
      termHeight = 24, termWidth = 80, viewportHeight = 19,
      tty = (24, 80), pending = []\<rparr>"

text \<open>A first page of thirty entries.\<close>

definition exLong :: "string list" where
  "exLong = replicate 30 ''row''"

text \<open>
  A time library that knows one relative duration, one hour back from the first second
  of 2025, and no date.
\<close>

definition exLib :: timelib where
  "exLib =
     \<lparr>nowUTC = ''2025-01-01T00:00:00Z'',
      ParseDuration = (\<lambda>v. if v = ''-1h'' then Inr (- 3600000000000)
                            else Inl ''time: invalid duration''),
      nowAdd = (\<lambda>dur. ''2024-12-31T23:00:00Z''),
      ParseInLocation = (\<lambda>layout v. Inl ''parsing time: cannot parse''),
      formatUTC = (\<lambda>t. []),
      parseUnixMilli = (\<lambda>v. if v = ''2024-12-31T23:00:00Z'' then Inr 1735686000000
                             else Inl ''parsing time: cannot parse''),
      quote = (\<lambda>v. CHR 0x22 # v @ [CHR 0x22])\<rparr>"

text \<open>A server that answers every request with the same page of two entries.\<close>

definition exHttp :: "(string \<times> int) list \<Rightarrow> string reply" where
  "exHttp q = Payload [''x'', ''y''] False (Some 2) None"

section \<open>What a redraw and a started goroutine leave alone\<close>

lemma renderScreen_fields [simp]:
  "allEntries (renderScreen d s) = allEntries s"
  "currentIdx (renderScreen d s) = currentIdx s"
  "expanded (renderScreen d s) = expanded s"
  "horizontalScrollOffset (renderScreen d s) = horizontalScrollOffset s"
  "loading (renderScreen d s) = loading s"
  "status (renderScreen d s) = status s"
  "searchQuery (renderScreen d s) = searchQuery s"
  "searchMatches (renderScreen d s) = searchMatches s"
  "searchActive (renderScreen d s) = searchActive s"
  "searchCursor (renderScreen d s) = searchCursor s"
  "searchHasMore (renderScreen d s) = searchHasMore s"
  "searchTotal (renderScreen d s) = searchTotal s"
  "activeStartTime (renderScreen d s) = activeStartTime s"
  "activeEndTime (renderScreen d s) = activeEndTime s"
  "currentCursor (renderScreen d s) = currentCursor s"
  "hasNextPage (renderScreen d s) = hasNextPage s"
  "totalAvailable (renderScreen d s) = totalAvailable s"
  "tty (renderScreen d s) = tty s"
  "pending (renderScreen d s) = pending s"
  "len (renderScreen d s) = len s"
  by (simp_all add: renderScreen_def Let_def len_def)

lemma spawn_fields [simp]:
  "allEntries (spawn t s) = allEntries s"
  "currentIdx (spawn t s) = currentIdx s"
  "expanded (spawn t s) = expanded s"
  "expandedScrollOffset (spawn t s) = expandedScrollOffset s"
  "horizontalScrollOffset (spawn t s) = horizontalScrollOffset s"
  "loading (spawn t s) = loading s"
  "status (spawn t s) = status s"
  "searchQuery (spawn t s) = searchQuery s"
  "searchMatches (spawn t s) = searchMatches s"
  "searchActive (spawn t s) = searchActive s"
  "searchCursor (spawn t s) = searchCursor s"
  "searchHasMore (spawn t s) = searchHasMore s"
  "searchTotal (spawn t s) = searchTotal s"
  "activeStartTime (spawn t s) = activeStartTime s"
  "activeEndTime (spawn t s) = activeEndTime s"
  "currentCursor (spawn t s) = currentCursor s"
  "hasNextPage (spawn t s) = hasNextPage s"
  "totalAvailable (spawn t s) = totalAvailable s"
  "termHeight (spawn t s) = termHeight s"
  "termWidth (spawn t s) = termWidth s"
  "viewportHeight (spawn t s) = viewportHeight s"
  "tty (spawn t s) = tty s"
  "pending (spawn t s) = pending s @ [t]"
  "len (spawn t s) = len s"
  by (simp_all add: spawn_def len_def)

lemma renderScreen_scroll_cong:
  "allEntries s = allEntries t \<Longrightarrow> currentIdx s = currentIdx t \<Longrightarrow> expanded s = expanded t
   \<Longrightarrow> expandedScrollOffset s = expandedScrollOffset t \<Longrightarrow> tty s = tty t
   \<Longrightarrow> expandedScrollOffset (renderScreen d s) = expandedScrollOffset (renderScreen d t)"
  by (simp add: renderScreen_def Let_def len_def)

lemma viewportHeight_renderScreen [simp]:
  "viewportHeight (renderScreen d s) = viewportRows (fst (tty s))"
  by (simp add: renderScreen_def Let_def)

lemma len_update [simp]:
  "len (s\<lparr>currentIdx := i\<rparr>) = len s"
  "len (s\<lparr>expanded := ex\<rparr>) = len s"
  "len (s\<lparr>expandedScrollOffset := off\<rparr>) = len s"
  "len (s\<lparr>horizontalScrollOffset := h\<rparr>) = len s"
  "len (s\<lparr>loading := b\<rparr>) = len s"
  "len (s\<lparr>status := m\<rparr>) = len s"
  "len (s\<lparr>searchQuery := q\<rparr>) = len s"
  "len (s\<lparr>searchMatches := ms\<rparr>) = len s"
  "len (s\<lparr>searchActive := b\<rparr>) = len s"
  "len (s\<lparr>searchCursor := c\<rparr>) = len s"
  "len (s\<lparr>searchHasMore := b\<rparr>) = len s"
  "len (s\<lparr>searchTotal := n\<rparr>) = len s"
  "len (s\<lparr>activeStartTime := c\<rparr>) = len s"
  "len (s\<lparr>activeEndTime := c\<rparr>) = len s"
  "len (s\<lparr>currentCursor := c\<rparr>) = len s"
  "len (s\<lparr>hasNextPage := b\<rparr>) = len s"
  "len (s\<lparr>totalAvailable := n\<rparr>) = len s"
  "len (s\<lparr>tty := z\<rparr>) = len s"
  "len (s\<lparr>pending := ts\<rparr>) = len s"
  by (simp_all add: len_def)

lemma moveSelection_fields [simp]:
  "allEntries (moveSelection i s) = allEntries s"
  "currentIdx (moveSelection i s) = i"
  "len (moveSelection i s) = len s"
  "loading (moveSelection i s) = loading s"
  "searchActive (moveSelection i s) = searchActive s"
  "searchQuery (moveSelection i s) = searchQuery s"
  "searchHasMore (moveSelection i s) = searchHasMore s"
  "searchCursor (moveSelection i s) = searchCursor s"
  "hasNextPage (moveSelection i s) = hasNextPage s"
  "currentCursor (moveSelection i s) = currentCursor s"
  "pending (moveSelection i s) = pending s"
  "tty (moveSelection i s) = tty s"
  by (simp_all add: moveSelection_def Let_def len_def)

lemma loadNextPage_fields [simp]:
  "allEntries (loadNextPage d s) = allEntries s"
  "currentIdx (loadNextPage d s) = currentIdx s"
  "len (loadNextPage d s) = len s"
  "searchActive (loadNextPage d s) = searchActive s"
  "searchQuery (loadNextPage d s) = searchQuery s"
  "searchHasMore (loadNextPage d s) = searchHasMore s"
  "searchCursor (loadNextPage d s) = searchCursor s"
  "hasNextPage (loadNextPage d s) = hasNextPage s"
  "currentCursor (loadNextPage d s) = currentCursor s"
  "tty (loadNextPage d s) = tty s"
  by (simp_all add: loadNextPage_def)

section \<open>The cases of the input loop\<close>

lemma handleInput_act: "handleInput d input line1 line2 s = act d (decode input) line1 line2 s"
  unfolding handleInput_def decode_def Let_def
  by (simp add: if_distrib [of "\<lambda>k. act d k line1 line2 s"] cong: if_cong)

lemma decode_DownKey:
  "decode input = DownKey
   \<Longrightarrow> input ! 0 = CHR ''j''
       \<or> (length input = 3 \<and> of_char (input ! 0) = (27::nat)
           \<and> of_char (input ! 1) = (91::nat) \<and> of_char (input ! 2) = (66::nat))"
  unfolding decode_def Let_def by (simp split: if_splits; blast)

lemma decode_PageDownKey:
  "decode input = PageDownKey
   \<Longrightarrow> input ! 0 = CHR ''d'' \<or> input ! 0 = CHR ''D''
       \<or> (length input \<ge> 4 \<and> of_char (input ! 0) = (27::nat)
           \<and> of_char (input ! 1) = (91::nat) \<and> of_char (input ! 2) = (54::nat)
           \<and> of_char (input ! 3) = (126::nat))"
  unfolding decode_def Let_def by (simp split: if_splits; blast)

text \<open>The sample state is the start of the sample session.\<close>

lemma ex_start:
  "session exDisplay (24, 80) [''a'', ''b'', ''c''] True None ''c1'' [] = Some exViewer"
  by (simp add: session_def runInteractiveMode_def renderScreen_def exViewer_def exDisplay_def
        viewportRows_def viewportWindow_def quo_def len_def Let_def renderRows.simps getB_def)

lemma reachable_run: "reachable d s \<Longrightarrow> run d evs s = Some s' \<Longrightarrow> reachable d s'"
proof (induction evs arbitrary: s)
  case Nil
  then show ?case by simp
next
  case (Cons ev evs)
  from Cons.prems(2) obtain s1 where s1: "step d ev s = Some s1" and r: "run d evs s1 = Some s'"
    by (auto split: option.splits)
  from Cons.prems(1) s1 have "reachable d s1" by (rule reachable.after)
  with r show ?case by (rule Cons.IH [rotated])
qed

lemma reachable_session:
  "session d sz entries hasMore totalCount nextCursor evs = Some s \<Longrightarrow> reachable d s"
  by (auto simp: session_def split: option.splits intro: reachable.initial reachable_run)

lemma run_snoc:
  "run d (evs @ [ev]) s = (case run d evs s of None \<Rightarrow> None | Some s' \<Rightarrow> step d ev s')"
  by (induction evs arbitrary: s) (auto split: option.splits)

lemma session_snoc:
  "session d sz entries hasMore totalCount nextCursor evs = Some s
   \<Longrightarrow> session d sz entries hasMore totalCount nextCursor (evs @ [ev]) = step d ev s"
  by (auto simp: session_def run_snoc split: option.splits)

section \<open>Appending a fetched page\<close>

text \<open>
  Claim C2. When the goroutine of \<^verbatim>\<open>loadNextPage\<close> gets a page, in the browse
  stream and in the search stream alike, the entries are the old entries followed by the
  page: every old index keeps its entry, the length grows by the length of the page, the
  stream's hasMore flag, total and cursor become those of the answer, and the selection
  stays where it was.
\<close>

theorem page_fetch_appends:
  "(allEntries (browsePageDone d (FetchOk page more' total' cursor) s) = allEntries s @ page
    \<and> (\<forall>i < length (allEntries s).
          allEntries (browsePageDone d (FetchOk page more' total' cursor) s) ! i = allEntries s ! i)
    \<and> length (allEntries (browsePageDone d (FetchOk page more' total' cursor) s))
        = length (allEntries s) + length page
    \<and> hasNextPage (browsePageDone d (FetchOk page more' total' cursor) s) = more'
    \<and> totalAvailable (browsePageDone d (FetchOk page more' total' cursor) s) = total'
    \<and> currentCursor (browsePageDone d (FetchOk page more' total' cursor) s) = cursor
    \<and> currentIdx (browsePageDone d (FetchOk page more' total' cursor) s) = currentIdx s)
   \<and> (allEntries (searchPageDone d (FetchOk page more' total' cursor) s) = allEntries s @ page
    \<and> (\<forall>i < length (allEntries s).
          allEntries (searchPageDone d (FetchOk page more' total' cursor) s) ! i = allEntries s ! i)
    \<and> length (allEntries (searchPageDone d (FetchOk page more' total' cursor) s))
        = length (allEntries s) + length page
    \<and> searchHasMore (searchPageDone d (FetchOk page more' total' cursor) s) = more'
    \<and> searchTotal (searchPageDone d (FetchOk page more' total' cursor) s) = total'
    \<and> searchCursor (searchPageDone d (FetchOk page more' total' cursor) s) = cursor
    \<and> currentIdx (searchPageDone d (FetchOk page more' total' cursor) s) = currentIdx s)"
  by (simp add: browsePageDone_def searchPageDone_def Let_def nth_append)

text \<open>The sample session, with a page of two entries: index 2 keeps its entry.\<close>

theorem page_fetch_appends_witness:
  "(2::nat) < length (allEntries exViewer)
   \<and> allEntries (browsePageDone exDisplay (FetchOk [''d'', ''e''] True None ''c2'') exViewer) ! 2
     = ''c''
   \<and> allEntries (searchPageDone exDisplay (FetchOk [''d'', ''e''] True None ''c2'') exViewer) ! 2
     = ''c''
   \<and> length (allEntries (browsePageDone exDisplay (FetchOk [''d'', ''e''] True None ''c2'') exViewer))
     = 5"
  using page_fetch_appends [of exDisplay "[''d'', ''e'']" True None "''c2''" exViewer]
  by (simp add: exViewer_def)

text \<open>
  Scenario B of the specification, in the sample session: \<^verbatim>\<open>j\<close> twice starts one
  fetch; when its page of two entries arrives there are five entries and the selection is
  still 2.
\<close>

lemma scenarioB:
  "map_option pending
     (session exDisplay (24, 80) [''a'', ''b'', ''c''] True None ''c1''
        [Input ''j'' None None, Input ''j'' None None])
     = Some [BrowsePage]
   \<and> map_option (\<lambda>s. (allEntries s, currentIdx s))
     (session exDisplay (24, 80) [''a'', ''b'', ''c''] True None ''c1''
        [Input ''j'' None None, Input ''j'' None None,
         BrowseFetched (FetchOk [''d'', ''e''] False None [])])
     = Some ([''a'', ''b'', ''c'', ''d'', ''e''], 2)"
  by code_simp

section \<open>The viewport window\<close>

lemma quo_nonneg: "0 \<le> a \<Longrightarrow> 0 < b \<Longrightarrow> quo a b = a div b"
  by (cases "a = 0") (simp_all add: quo_def)

lemma viewportRows_pos: "1 \<le> viewportRows th"
  by (simp add: viewportRows_def Let_def)

lemma viewportWindow_formula:
  assumes "1 \<le> vh"
  shows "viewportWindow idx vh n =
           (if max 0 (idx - vh div 2) + vh > n then max 0 (n - vh) else max 0 (idx - vh div 2),
            min n (max 0 (idx - vh div 2) + vh))"
  using assms by (auto simp: viewportWindow_def Let_def quo_nonneg max_def min_def)

lemma viewportWindow_size:
  assumes "1 \<le> vh" "0 \<le> n"
  shows "snd (viewportWindow idx vh n) - fst (viewportWindow idx vh n) = min vh n"
  using assms by (auto simp: viewportWindow_formula max_def min_def)

lemma viewportWindow_contains:
  assumes "1 \<le> vh" "0 \<le> idx" "idx < n"
  shows "fst (viewportWindow idx vh n) \<le> idx \<and> idx < snd (viewportWindow idx vh n)"
proof -
  have "vh div 2 < vh" using assms(1) by simp
  moreover have "0 \<le> vh div 2" using assms(1) by simp
  ultimately show ?thesis
    using assms by (auto simp: viewportWindow_formula max_def min_def)
qed

text \<open>
  The window of the redraw. For every state and every terminal height, with the viewport
  height the redraw computes, the window starts at \<open>max 0 (currentIdx - vh div 2)\<close>,
  ends at the minimum of the number of entries and start plus height, and is moved back
  when its end hits the end of the entries; its size is the minimum of the viewport
  height and the number of entries. It contains the selection whenever the selection is
  an index of the entries.
\<close>

theorem viewport_window:
  "(let vh = viewportHeight (renderScreen d s);
        w = viewportWindow (currentIdx s) vh (len s);
        start0 = max 0 (currentIdx s - vh div 2)
    in fst w = (if start0 + vh > len s then max 0 (len s - vh) else start0)
       \<and> snd w = min (len s) (start0 + vh)
       \<and> snd w - fst w = min vh (len s)
       \<and> (0 \<le> currentIdx s \<and> currentIdx s < len s \<longrightarrow> fst w \<le> currentIdx s \<and> currentIdx s < snd w))"
proof -
  let ?vh = "viewportRows (fst (tty s))"
  let ?w = "viewportWindow (currentIdx s) ?vh (len s)"
  have vh: "1 \<le> ?vh" by (rule viewportRows_pos)
  have n: "0 \<le> len s" by (simp add: len_def)
  have a: "fst ?w = (if max 0 (currentIdx s - ?vh div 2) + ?vh > len s
                      then max 0 (len s - ?vh) else max 0 (currentIdx s - ?vh div 2))"
    by (simp add: viewportWindow_formula [OF vh])
  have b: "snd ?w = min (len s) (max 0 (currentIdx s - ?vh div 2) + ?vh)"
    by (simp add: viewportWindow_formula [OF vh])
  have c: "snd ?w - fst ?w = min ?vh (len s)"
    by (rule viewportWindow_size [OF vh n])
  have e: "0 \<le> currentIdx s \<and> currentIdx s < len s
           \<longrightarrow> fst ?w \<le> currentIdx s \<and> currentIdx s < snd ?w"
    using viewportWindow_contains [OF vh] by blast
  show ?thesis
    unfolding Let_def viewportHeight_renderScreen
    using a b c e by blast
qed

text \<open>The sample session at its start: three entries, the selection on the first.\<close>

theorem viewport_window_witness:
  "0 \<le> currentIdx exViewer \<and> currentIdx exViewer < len exViewer
   \<and> fst (viewportWindow (currentIdx exViewer) (viewportHeight (renderScreen exDisplay exViewer)) (len exViewer)) \<le> currentIdx exViewer
   \<and> currentIdx exViewer < snd (viewportWindow (currentIdx exViewer) (viewportHeight (renderScreen exDisplay exViewer)) (len exViewer))
   \<and> viewportWindow (currentIdx exViewer) (viewportHeight (renderScreen exDisplay exViewer)) (len exViewer) = (0, 3)"
  using viewport_window [of exDisplay exViewer]
  by (simp add: exViewer_def len_def Let_def viewportRows_def prod_eq_iff)

text \<open>Scenarios A and E of the specification.\<close>

lemma scenarioA: "viewportWindow 4 5 12 = (2, 7)"
  by (simp add: viewportWindow_def quo_def Let_def)

lemma scenarioE: "viewportWindow 499 20 500 = (480, 500)"
  by (simp add: viewportWindow_def quo_def Let_def)

text \<open>
  Claim C3 does not hold of the code: the window misses the selection in a state with
  entries and a selection outside them. Such a state is reached from the sample start: a
  search without matches empties the entries, Escape clears the search, \<^verbatim>\<open>d\<close> moves
  the selection to \<open>len - 1 = - 1\<close> and starts a browse fetch, and the page that arrives
  is appended. The window is then rows 0 to 2 and the selection is - 1.
\<close>

theorem window_misses_selection:
  "map_option (\<lambda>s. (allEntries s, currentIdx s, viewportHeight s,
                     viewportWindow (currentIdx s) (viewportHeight s) (len s)))
     (session exDisplay (24, 80) [''a'', ''b'', ''c''] True None ''c1''
        [Input ''/'' (Some ''zzz'') None,
         SearchFetched ''zzz'' (FetchOk [] False None []),
         Input [CHR 0x1B] None None,
         Input ''d'' None None,
         BrowseFetched (FetchOk [''p'', ''q''] True None ''c2'')])
   = Some ([''p'', ''q''], - 1, 19, (0, 2))"
  by code_simp

section \<open>The selection and the entries\<close>

text \<open>
  Claim C1 does not hold of the code. First session: after a search without matches,
  Escape and \<^verbatim>\<open>d\<close>, the page of the browse fetch arrives; the entries are not empty,
  the selection is - 1, and \<^verbatim>\<open>k\<close> leaves it there. Second session: \<^verbatim>\<open>G\<close> is pressed
  while the search is being fetched; the result has one entry, and after \<^verbatim>\<open>k\<close> the
  selection is 1. In that state the arrow right reads \<^verbatim>\<open>allEntries[1]\<close> and the
  program panics.
\<close>

theorem selection_leaves_entries:
  "map_option (\<lambda>s. (allEntries s, currentIdx s))
     (session exDisplay (24, 80) [''a'', ''b'', ''c''] True None ''c1''
        [Input ''/'' (Some ''zzz'') None,
         SearchFetched ''zzz'' (FetchOk [] False None []),
         Input [CHR 0x1B] None None,
         Input ''d'' None None,
         BrowseFetched (FetchOk [''p'', ''q''] True None ''c2''),
         Input ''k'' None None])
     = Some ([''p'', ''q''], - 1)
   \<and> map_option (\<lambda>s. (allEntries s, currentIdx s))
     (session exDisplay (24, 80) [''a'', ''b'', ''c''] True None ''c1''
        [Input ''/'' (Some ''err'') None,
         Input ''G'' None None,
         SearchFetched ''err'' (FetchOk [''m''] False (Some 1) []),
         Input ''k'' None None])
     = Some ([''m''], 1)
   \<and> map_option
         (\<lambda>s. case handleInput exDisplay [CHR 0x1B, CHR ''['', CHR ''C''] None None s of
                 Inl x \<Rightarrow> Some x | Inr s' \<Rightarrow> None)
     (session exDisplay (24, 80) [''a'', ''b'', ''c''] True None ''c1''
        [Input ''/'' (Some ''err'') None,
         Input ''G'' None None,
         SearchFetched ''err'' (FetchOk [''m''] False (Some 1) []),
         Input ''k'' None None])
     = Some (Some IndexOutOfRange)"
  by code_simp

text \<open>
  What does hold: a turn of the input loop leaves the entries as they are and keeps a
  selection that is inside them, and so does a page that is appended. The selection
  leaves the entries where they are replaced by a search result, or are empty.
\<close>

lemma viewportHeight_frames [simp]:
  "viewportHeight (moveSelection i s) = viewportHeight s"
  by (simp add: moveSelection_def Let_def)

lemma heightInv_simps [simp]:
  "heightInv (renderScreen d s)"
  "heightInv (spawn t s) = heightInv s"
  "heightInv (moveSelection i s) = heightInv s"
  "heightInv (s\<lparr>pending := ts\<rparr>) = heightInv s"
  "heightInv (s\<lparr>tty := z\<rparr>) = heightInv s"
  by (simp_all add: heightInv_def viewportRows_def Let_def)

lemma heightInv_loadNextPage [simp]: "heightInv s \<Longrightarrow> heightInv (loadNextPage d s)"
  by (simp add: loadNextPage_def)

lemma heightInv_act: "heightInv s \<Longrightarrow> act d k line1 line2 s = Inr s' \<Longrightarrow> heightInv s'"
  by (cases k)
     (auto simp: performSearch_def reloadWithDateFilter_def keyDown_def autoLoad_def
        keyUp_def keyRight_def keyLeft_def pageDown_def pageUp_def toggle_def Let_def
        split: option.splits if_splits)

lemma heightInv_step: "heightInv s \<Longrightarrow> step d ev s = Some s' \<Longrightarrow> heightInv s'"
proof (cases ev)
  case (Input input line1 line2)
  assume "heightInv s" "step d ev s = Some s'"
  with Input show ?thesis
    by (auto simp: handleInput_act split: sum.splits dest: heightInv_act)
next
  case (BrowseFetched r)
  assume "heightInv s" "step d ev s = Some s'"
  with BrowseFetched show ?thesis
    by (auto simp: finish_def browsePageDone_def Let_def split: if_splits)
next
  case (SearchPageFetched r)
  assume "heightInv s" "step d ev s = Some s'"
  with SearchPageFetched show ?thesis
    by (auto simp: finish_def searchPageDone_def Let_def split: if_splits)
next
  case (SearchFetched q r)
  assume "heightInv s" "step d ev s = Some s'"
  with SearchFetched show ?thesis
    by (cases r) (auto simp: finish_def searchDone_def Let_def split: if_splits)
next
  case (Reloaded a b lib http)
  assume "heightInv s" "step d ev s = Some s'"
  with Reloaded show ?thesis
    by (auto simp: finish_def reloadDone_def Let_def split: if_splits sum.splits reply.splits)
next
  case (Timer m)
  assume "heightInv s" "step d ev s = Some s'"
  with Timer show ?thesis
    by (auto simp: finish_def clearStatus_def split: if_splits)
qed auto

lemma reachable_viewportHeight: "reachable d s \<Longrightarrow> 1 \<le> viewportHeight s"
proof (induction rule: reachable.induct)
  case (initial sz entries hasMore totalCount nextCursor s)
  then have "heightInv s" by (auto simp: runInteractiveMode_def split: if_splits)
  then show ?case by (simp add: heightInv_def)
next
  case (after s ev s')
  then show ?case using heightInv_step [of s d ev s'] by (simp add: heightInv_def)
qed

lemma act_keeps_selection:
  assumes "1 \<le> viewportHeight s" "0 \<le> currentIdx s" "currentIdx s < len s"
    and "act d k line1 line2 s = Inr s'"
  shows "allEntries s' = allEntries s \<and> 0 \<le> currentIdx s' \<and> currentIdx s' < len s'"
  using assms
  by (cases k)
     (auto simp: performSearch_def reloadWithDateFilter_def keyDown_def autoLoad_def
        keyUp_def keyRight_def keyLeft_def pageDown_def pageUp_def toggle_def Let_def len_def
        split: option.splits if_splits)

lemma input_keeps_selection:
  assumes "reachable d s" "0 \<le> currentIdx s" "currentIdx s < len s"
    and "handleInput d input line1 line2 s = Inr s'"
  shows "allEntries s' = allEntries s \<and> 0 \<le> currentIdx s' \<and> currentIdx s' < len s'"
  using act_keeps_selection [OF reachable_viewportHeight [OF assms(1)] assms(2,3)] assms(4)
  by (simp add: handleInput_act)

lemma page_keeps_selection:
  assumes "0 \<le> currentIdx s" "currentIdx s < len s"
  shows "0 \<le> currentIdx (browsePageDone d r s) \<and> currentIdx (browsePageDone d r s) < len (browsePageDone d r s)"
    and "0 \<le> currentIdx (searchPageDone d r s) \<and> currentIdx (searchPageDone d r s) < len (searchPageDone d r s)"
  using assms
  by (cases r; simp add: browsePageDone_def searchPageDone_def Let_def len_def)+

section \<open>When a page fetch is started\<close>

lemma pages_simps [simp]:
  "pages [] = []"
  "pages (ts @ us) = pages ts @ pages us"
  "pages [BrowsePage] = [BrowsePage]"
  "pages [SearchPage] = [SearchPage]"
  "pages [SearchFirst q] = []"
  "pages [Reload a b] = []"
  "pages [ClearStatus m] = []"
  by (simp_all add: pages_def)

lemma loadNextPage_viewportHeight:
  "viewportHeight s = viewportRows (fst (tty s))
   \<Longrightarrow> viewportHeight (loadNextPage d s) = viewportRows (fst (tty s))"
  by (simp add: loadNextPage_def)

lemma loadNextPage_pending:
  "pending (loadNextPage d s) =
     (if \<not> loading s \<and> (if searchActive s then searchHasMore s \<and> searchCursor s \<noteq> []
                          else hasNextPage s \<and> currentCursor s \<noteq> [])
      then pending s @ [if searchActive s then SearchPage else BrowsePage]
      else pending s)"
  by (simp add: loadNextPage_def)

lemma keyDown_pages:
  assumes "keyDown d s = Inr s'" "pages (pending s') \<noteq> pages (pending s)"
  shows "\<not> loading s \<and> hasNextPage s
         \<and> (if searchActive s then searchHasMore s \<and> searchCursor s \<noteq> []
             else hasNextPage s \<and> currentCursor s \<noteq> [])
         \<and> currentIdx s' \<ge> len s' - 5
         \<and> pending s' = pending s @ [if searchActive s then SearchPage else BrowsePage]"
  using assms
  by (auto simp: keyDown_def autoLoad_def Let_def loadNextPage_pending split: if_splits)

lemma pageDown_pages:
  assumes "pages (pending (pageDown d s)) \<noteq> pages (pending s)"
  shows "\<not> loading s
         \<and> (if searchActive s then searchHasMore s \<and> searchCursor s \<noteq> []
             else hasNextPage s \<and> currentCursor s \<noteq> [])
         \<and> currentIdx (pageDown d s) \<ge> len (pageDown d s) - viewportHeight (pageDown d s)
         \<and> pending (pageDown d s) = pending s @ [if searchActive s then SearchPage else BrowsePage]"
  using assms
  by (auto simp: pageDown_def Let_def loadNextPage_pending loadNextPage_viewportHeight
        split: if_splits)

lemma pending_other_keys [simp]:
  "pending (keyUp d s) = pending s"
  "pending (keyLeft d s) = pending s"
  "pending (pageUp d s) = pending s"
  "pending (toggle d s) = pending s"
  "pages (pending (performSearch d q s)) = pages (pending s)"
  "pages (pending (reloadWithDateFilter d a b s)) = pages (pending s)"
  by (simp_all add: keyUp_def keyLeft_def pageUp_def toggle_def performSearch_def
        reloadWithDateFilter_def Let_def)

lemma pending_keyRight: "keyRight d s = Inr s' \<Longrightarrow> pending s' = pending s"
  by (auto simp: keyRight_def Let_def split: if_splits)

lemma act_pages:
  "act d k line1 line2 s = Inr s' \<Longrightarrow> pages (pending s') \<noteq> pages (pending s)
   \<Longrightarrow> (k = DownKey \<and> keyDown d s = Inr s') \<or> (k = PageDownKey \<and> s' = pageDown d s)"
  by (cases k) (auto split: option.splits if_splits dest: pending_keyRight)

text \<open>
  Claim C4, amended. \<^verbatim>\<open>loadNextPage\<close> starts a fetch for the governing stream exactly
  when no load is flagged, the stream's hasMore flag is set and its cursor is not empty.
  A turn of the input loop starts a page fetch only then, and only in two cases: after
  \<^verbatim>\<open>j\<close> or arrow down has moved the selection to within 5 entries of the end, or
  after \<^verbatim>\<open>d\<close> or PageDown has moved the selection to within one viewport height of the
  end. In particular no turn of the loop starts a page fetch while a load is flagged.
\<close>

theorem page_fetch_started:
  "pending (loadNextPage d s) =
     (if \<not> loading s \<and> (if searchActive s then searchHasMore s \<and> searchCursor s \<noteq> []
                          else hasNextPage s \<and> currentCursor s \<noteq> [])
      then pending s @ [if searchActive s then SearchPage else BrowsePage]
      else pending s)
   \<and> (handleInput d input line1 line2 s = Inr s' \<and> pages (pending s') \<noteq> pages (pending s)
        \<longrightarrow> \<not> loading s
            \<and> (if searchActive s then searchHasMore s \<and> searchCursor s \<noteq> []
                else hasNextPage s \<and> currentCursor s \<noteq> [])
            \<and> pending s' = pending s @ [if searchActive s then SearchPage else BrowsePage]
            \<and> ((input ! 0 = CHR ''j''
                  \<or> (length input = 3 \<and> of_char (input ! 0) = (27::nat)
                      \<and> of_char (input ! 1) = (91::nat) \<and> of_char (input ! 2) = (66::nat)))
                 \<and> currentIdx s' \<ge> len s' - 5
                \<or> (input ! 0 = CHR ''d'' \<or> input ! 0 = CHR ''D''
                    \<or> (length input \<ge> 4 \<and> of_char (input ! 0) = (27::nat)
                        \<and> of_char (input ! 1) = (91::nat) \<and> of_char (input ! 2) = (54::nat)
                        \<and> of_char (input ! 3) = (126::nat)))
                   \<and> currentIdx s' \<ge> len s' - viewportHeight s'))"
proof (intro conjI impI)
  show "pending (loadNextPage d s) =
     (if \<not> loading s \<and> (if searchActive s then searchHasMore s \<and> searchCursor s \<noteq> []
                          else hasNextPage s \<and> currentCursor s \<noteq> [])
      then pending s @ [if searchActive s then SearchPage else BrowsePage]
      else pending s)"
    by (rule loadNextPage_pending)
next
  assume a: "handleInput d input line1 line2 s = Inr s' \<and> pages (pending s') \<noteq> pages (pending s)"
  then have h: "act d (decode input) line1 line2 s = Inr s'"
    and p: "pages (pending s') \<noteq> pages (pending s)"
    by (simp_all add: handleInput_act)
  let ?down = "input ! 0 = CHR ''j''
                  \<or> (length input = 3 \<and> of_char (input ! 0) = (27::nat)
                      \<and> of_char (input ! 1) = (91::nat) \<and> of_char (input ! 2) = (66::nat))"
  let ?pgdn = "input ! 0 = CHR ''d'' \<or> input ! 0 = CHR ''D''
                    \<or> (length input \<ge> 4 \<and> of_char (input ! 0) = (27::nat)
                        \<and> of_char (input ! 1) = (91::nat) \<and> of_char (input ! 2) = (54::nat)
                        \<and> of_char (input ! 3) = (126::nat))"
  from act_pages [OF h p]
  have c: "(?down \<and> keyDown d s = Inr s') \<or> (?pgdn \<and> s' = pageDown d s)"
    using decode_DownKey [of input] decode_PageDownKey [of input] by blast
  show "\<not> loading s" using c p keyDown_pages [of d s s'] pageDown_pages [of d s] by blast
  show "if searchActive s then searchHasMore s \<and> searchCursor s \<noteq> []
        else hasNextPage s \<and> currentCursor s \<noteq> []"
    using c p keyDown_pages [of d s s'] pageDown_pages [of d s] by blast
  show "pending s' = pending s @ [if searchActive s then SearchPage else BrowsePage]"
    using c p keyDown_pages [of d s s'] pageDown_pages [of d s] by blast
  show "?down \<and> currentIdx s' \<ge> len s' - 5
        \<or> ?pgdn \<and> currentIdx s' \<ge> len s' - viewportHeight s'"
    using c p keyDown_pages [of d s s'] pageDown_pages [of d s] by blast
qed

text \<open>
  The sample state and \<^verbatim>\<open>j\<close>: the selection moves to the second of three entries and
  the browse fetch starts.
\<close>

theorem page_fetch_started_witness:
  "map_option (\<lambda>s. (pending s, currentIdx s)) (step exDisplay (Input ''j'' None None) exViewer)
     = Some ([BrowsePage], 1)
   \<and> \<not> loading exViewer \<and> hasNextPage exViewer \<and> currentCursor exViewer \<noteq> []
   \<and> pending (loadNextPage exDisplay exViewer) = [BrowsePage]"
proof -
  have e: "map_option (\<lambda>s. (pending s, currentIdx s))
             (step exDisplay (Input ''j'' None None) exViewer) = Some ([BrowsePage], 1)"
    by code_simp
  then obtain s' where s': "handleInput exDisplay ''j'' None None exViewer = Inr s'"
    and p: "pending s' = [BrowsePage]"
    by (auto split: sum.splits)
  have "pages (pending s') \<noteq> pages (pending exViewer)"
    using p by (simp add: exViewer_def)
  with s' page_fetch_started [of exDisplay exViewer "''j''" None None s']
  have "\<not> loading exViewer \<and> hasNextPage exViewer \<and> currentCursor exViewer \<noteq> []
        \<and> pending (loadNextPage exDisplay exViewer) = [BrowsePage]"
    by (simp add: exViewer_def)
  with e show ?thesis by simp
qed

text \<open>
  Claim C4 as stated fails in both directions. Thirty entries, a viewport of 19 rows:
  \<^verbatim>\<open>d\<close> moves the selection to index 19, which is not within 5 entries of the end, and
  the browse fetch starts. \<^verbatim>\<open>G\<close> moves the selection to the last entry, no load is
  flagged, the browse stream has more and a cursor, and no fetch starts. And a second
  browse fetch starts while the first is outstanding: the load flag is shared, and a
  date-filter reload that fails in between lowers it.
\<close>

theorem page_fetch_window_counterexample:
  "map_option (\<lambda>s. (pending s, currentIdx s, len s))
     (session exDisplay (24, 80) exLong True None ''c1'' [Input ''d'' None None])
     = Some ([BrowsePage], 19, 30)
   \<and> map_option (\<lambda>s. (pending s, loading s, hasNextPage s, currentCursor s, currentIdx s, len s))
     (session exDisplay (24, 80) exLong True None ''c1'' [Input ''G'' None None])
     = Some ([], False, True, ''c1'', 29, 30)
   \<and> map_option pending
     (session exDisplay (24, 80) [''a'', ''b'', ''c''] True None ''c1''
        [Input ''j'' None None,
         Input ''f'' (Some ''zzz'') (Some []),
         Reloaded ''zzz'' [] exLib exHttp,
         Input ''k'' None None,
         Input ''j'' None None])
     = Some [BrowsePage, BrowsePage]"
  by code_simp

section \<open>A successful date-filter reload\<close>

text \<open>
  What the successful path of the goroutine of \<^verbatim>\<open>reloadWithDateFilter\<close> does: the
  entries are the page of the answer, the browse stream has the answer's cursor, hasMore
  flag and total, the selection is 0, the expansion flags and the vertical offsets are
  empty, the search is cleared and the filter is recorded. The horizontal offsets are not
  assigned.
\<close>

lemma reloadDone_success:
  assumes "dateQuery lib start end' = Inr q" "http q = Payload page more' total' nextCursor"
  shows "allEntries (reloadDone d lib http start end' s) = page
    \<and> hasNextPage (reloadDone d lib http start end' s) = more'
    \<and> totalAvailable (reloadDone d lib http start end' s) = total'
    \<and> currentCursor (reloadDone d lib http start end' s)
        = (case nextCursor of Some c \<Rightarrow> c | None \<Rightarrow> [])
    \<and> currentIdx (reloadDone d lib http start end' s) = 0
    \<and> expanded (reloadDone d lib http start end' s) = Map.empty
    \<and> expandedScrollOffset (reloadDone d lib http start end' s) = Map.empty
    \<and> \<not> searchActive (reloadDone d lib http start end' s)
    \<and> searchQuery (reloadDone d lib http start end' s) = []
    \<and> activeStartTime (reloadDone d lib http start end' s) = start
    \<and> activeEndTime (reloadDone d lib http start end' s) = end'
    \<and> horizontalScrollOffset (reloadDone d lib http start end' s) = horizontalScrollOffset s"
proof -
  have none: "renderRows jl es Map.empty vh ve i lns Map.empty = Map.empty"
    for jl :: "'a \<Rightarrow> int" and es vh ve i lns
  proof (induction "nat (ve - i)" arbitrary: i lns)
    case 0
    then show ?case by (simp add: renderRows.simps [of jl es _ vh ve i lns])
  next
    case (Suc n)
    then have "renderRows jl es Map.empty vh ve (i + 1) (lns + 1) Map.empty = Map.empty"
      by simp
    then show ?case
      by (simp add: renderRows.simps [of jl es _ vh ve i lns] getB_def)
  qed
  show ?thesis
    using assms by (simp add: reloadDone_def Let_def renderScreen_def none)
qed

text \<open>
  Claim C5 does not hold of the code: the horizontal offsets survive the reload. In the
  sample session the first entry is scrolled right by 10 and expanded, then the filter
  \<^verbatim>\<open>-1h\<close> is applied. The new page replaces the entries, the selection is 0, the
  expansion flag and the vertical offset of index 0 are gone, and its horizontal offset
  is still 10.
\<close>

theorem reload_keeps_horizontal_offset:
  "map_option
     (\<lambda>s. (allEntries s, currentIdx s, expanded s 0, expandedScrollOffset s 0,
            horizontalScrollOffset s 0))
     (session exDisplay (24, 80) [''a'', ''b'', ''c''] True None ''c1''
        [Input [CHR 0x1B, CHR ''['', CHR ''C''] None None,
         Input '' '' None None,
         Input ''f'' (Some ''-1h'') (Some []),
         Reloaded ''-1h'' [] exLib exHttp])
   = Some ([''x'', ''y''], 0, None, None, Some 10)"
  by code_simp

section \<open>Clearing the status line\<close>

text \<open>
  Claim C8, amended. When the sleep of a status-clearing goroutine is over it blanks the
  status line whatever the line says: there is no comparison with the message it was
  started for.
\<close>

theorem timer_blanks_any_status:
  "ClearStatus m \<in> set (pending s) \<Longrightarrow> map_option status (step d (Timer m) s) = Some []"
  by (simp add: finish_def clearStatus_def)

text \<open>
  In the sample session a page arrives and its goroutine starts the clearing of
  \<open>Loaded 1 new entries\<close>.
\<close>

theorem timer_blanks_any_status_witness:
  "map_option pending
     (session exDisplay (24, 80) [''a'', ''b'', ''c''] True None ''c1''
        [Input ''j'' None None, BrowseFetched (FetchOk [''d''] True None ''c2'')])
     = Some [ClearStatus ''Loaded 1 new entries'']
   \<and> map_option status
     (session exDisplay (24, 80) [''a'', ''b'', ''c''] True None ''c1''
        [Input ''j'' None None, BrowseFetched (FetchOk [''d''] True None ''c2''),
         Timer ''Loaded 1 new entries''])
     = Some []"
proof -
  have p: "map_option pending
     (session exDisplay (24, 80) [''a'', ''b'', ''c''] True None ''c1''
        [Input ''j'' None None, BrowseFetched (FetchOk [''d''] True None ''c2'')])
     = Some [ClearStatus ''Loaded 1 new entries'']"
    by code_simp
  then obtain s where s: "session exDisplay (24, 80) [''a'', ''b'', ''c''] True None ''c1''
        [Input ''j'' None None, BrowseFetched (FetchOk [''d''] True None ''c2'')] = Some s"
    and ps: "pending s = [ClearStatus ''Loaded 1 new entries'']"
    by auto
  from ps have "ClearStatus ''Loaded 1 new entries'' \<in> set (pending s)" by simp
  then have t: "map_option status (step exDisplay (Timer ''Loaded 1 new entries'') s) = Some []"
    by (rule timer_blanks_any_status)
  have "session exDisplay (24, 80) [''a'', ''b'', ''c''] True None ''c1''
        [Input ''j'' None None, BrowseFetched (FetchOk [''d''] True None ''c2''),
         Timer ''Loaded 1 new entries'']
        = step exDisplay (Timer ''Loaded 1 new entries'') s"
    using session_snoc [OF s, of "Timer ''Loaded 1 new entries''"] by simp
  with p t show ?thesis by simp
qed

text \<open>
  Claim C8 as stated fails. In the sample session the clearing of
  \<open>Loaded 1 new entries\<close> is pending when a search is submitted; the status is then the
  message of the search, and when the sleep is over the status is empty although the
  search is still being fetched.
\<close>

theorem timer_clears_newer_status:
  "map_option (\<lambda>s. (status s, loading s, pending s))
     (session exDisplay (24, 80) [''a'', ''b'', ''c''] True None ''c1''
        [Input ''j'' None None,
         BrowseFetched (FetchOk [''d''] True None ''c2''),
         Input ''/'' (Some ''err'') None])
     = Some (''Searching for '' @ [CHR 0x27] @ ''err'' @ [CHR 0x27] @ ''...'', True,
             [ClearStatus ''Loaded 1 new entries'', SearchFirst ''err''])
   \<and> map_option (\<lambda>s. (status s, loading s, pending s))
     (session exDisplay (24, 80) [''a'', ''b'', ''c''] True None ''c1''
        [Input ''j'' None None,
         BrowseFetched (FetchOk [''d''] True None ''c2''),
         Input ''/'' (Some ''err'') None,
         Timer ''Loaded 1 new entries''])
     = Some ([], True, [SearchFirst ''err''])"
  by code_simp

section \<open>A load that fails\<close>

lemma renderScreen_scroll_status [simp]:
  "expandedScrollOffset (renderScreen d (s\<lparr>status := m, loading := b\<rparr>))
     = expandedScrollOffset (renderScreen d s)"
  "expandedScrollOffset (renderScreen d (s\<lparr>status := m\<rparr>))
     = expandedScrollOffset (renderScreen d s)"
  "expandedScrollOffset (renderScreen d (s\<lparr>loading := b\<rparr>))
     = expandedScrollOffset (renderScreen d s)"
  by (simp_all add: renderScreen_def Let_def len_def)




section \<open>Clearing a search\<close>

text \<open>In every state the viewer can be in, the search flag is set exactly when there is a
  query: the two are assigned together.\<close>

lemma searchInv_simps [simp]:
  "searchInv (renderScreen d s) = searchInv s"
  "searchInv (spawn t s) = searchInv s"
  "searchInv (moveSelection i s) = searchInv s"
  "searchInv (loadNextPage d s) = searchInv s"
  "searchInv (s\<lparr>currentIdx := i\<rparr>) = searchInv s"
  "searchInv (s\<lparr>pending := ts\<rparr>) = searchInv s"
  "searchInv (s\<lparr>tty := z\<rparr>) = searchInv s"
  "searchInv (s\<lparr>status := m\<rparr>) = searchInv s"
  "searchInv (s\<lparr>loading := b\<rparr>) = searchInv s"
  by (simp_all add: searchInv_def)

lemma searchInv_act: "searchInv s \<Longrightarrow> act d k line1 line2 s = Inr s' \<Longrightarrow> searchInv s'"
  by (cases k)
     (auto simp: searchInv_def performSearch_def reloadWithDateFilter_def keyDown_def autoLoad_def
        keyUp_def keyRight_def keyLeft_def pageDown_def pageUp_def toggle_def Let_def
        split: option.splits if_splits)

lemma searchInv_step: "searchInv s \<Longrightarrow> step d ev s = Some s' \<Longrightarrow> searchInv s'"
proof (cases ev)
  case (Input input line1 line2)
  assume "searchInv s" "step d ev s = Some s'"
  with Input show ?thesis
    by (auto simp: handleInput_act split: sum.splits dest: searchInv_act)
next
  case (BrowseFetched r)
  assume "searchInv s" "step d ev s = Some s'"
  with BrowseFetched show ?thesis
    by (cases r) (auto simp: finish_def browsePageDone_def searchInv_def Let_def split: if_splits)
next
  case (SearchPageFetched r)
  assume "searchInv s" "step d ev s = Some s'"
  with SearchPageFetched show ?thesis
    by (cases r) (auto simp: finish_def searchPageDone_def searchInv_def Let_def split: if_splits)
next
  case (SearchFetched q r)
  assume "searchInv s" "step d ev s = Some s'"
  with SearchFetched show ?thesis
    by (cases r) (auto simp: finish_def searchDone_def searchInv_def Let_def split: if_splits)
next
  case (Reloaded a b lib http)
  assume "searchInv s" "step d ev s = Some s'"
  with Reloaded show ?thesis
    by (auto simp: finish_def reloadDone_def searchInv_def Let_def
          split: if_splits sum.splits reply.splits)
next
  case (Timer m)
  assume "searchInv s" "step d ev s = Some s'"
  with Timer show ?thesis
    by (auto simp: finish_def clearStatus_def split: if_splits)
qed (auto simp: searchInv_def)

lemma reachable_searchInv: "reachable d s \<Longrightarrow> searchInv s"
proof (induction rule: reachable.induct)
  case (initial sz entries hasMore totalCount nextCursor s)
  then show ?case
    by (auto simp: runInteractiveMode_def searchInv_def split: if_splits)
next
  case (after s ev s')
  then show ?case by (auto dest: searchInv_step)
qed

lemma decode_escape: "decode [CHR 0x1B] = EscapeKey"
  by (simp add: decode_def)

lemma decode_slash: "decode ''/'' = SearchKey"
  by (simp add: decode_def)

text \<open>
  Claim C9. Escape while a search is active, and the submission of an empty query, both
  run \<^verbatim>\<open>performSearch("")\<close> and redraw: the search flag and the query are cleared and
  the selection is 0, while the entries and the cursor, hasMore flag and total of the
  browse stream are what they were. The entries shown are still the last search results.
\<close>

theorem clearing_search_keeps_entries:
  "(reachable d s \<and> searchActive s
      \<longrightarrow> handleInput d [CHR 0x1B] line1 line2 s = Inr (renderScreen d (performSearch d [] s)))
   \<and> handleInput d ''/'' (Some []) line2 s = Inr (renderScreen d (performSearch d [] s))
   \<and> \<not> searchActive (renderScreen d (performSearch d [] s))
   \<and> searchQuery (renderScreen d (performSearch d [] s)) = []
   \<and> currentIdx (renderScreen d (performSearch d [] s)) = 0
   \<and> allEntries (renderScreen d (performSearch d [] s)) = allEntries s
   \<and> currentCursor (renderScreen d (performSearch d [] s)) = currentCursor s
   \<and> hasNextPage (renderScreen d (performSearch d [] s)) = hasNextPage s
   \<and> totalAvailable (renderScreen d (performSearch d [] s)) = totalAvailable s"
proof (intro conjI impI)
  assume "reachable d s \<and> searchActive s"
  then have "searchQuery s \<noteq> []"
    using reachable_searchInv [of d s] by (simp add: searchInv_def)
  then show "handleInput d [CHR 0x1B] line1 line2 s = Inr (renderScreen d (performSearch d [] s))"
    by (simp add: handleInput_act decode_escape)
next
  show "handleInput d ''/'' (Some []) line2 s = Inr (renderScreen d (performSearch d [] s))"
    by (simp add: handleInput_act decode_slash)
qed (simp_all add: performSearch_def)

text \<open>The sample session after a search with two results, and then Escape.\<close>

theorem clearing_search_keeps_entries_witness:
  "map_option (\<lambda>s. (searchActive s, allEntries s, currentCursor s))
     (session exDisplay (24, 80) [''a'', ''b'', ''c''] True None ''c1''
        [Input ''/'' (Some ''err'') None,
         SearchFetched ''err'' (FetchOk [''m'', ''n''] False (Some 2) [])])
     = Some (True, [''m'', ''n''], ''c1'')
   \<and> map_option (\<lambda>s. (searchActive s, searchQuery s, currentIdx s, allEntries s, currentCursor s))
     (session exDisplay (24, 80) [''a'', ''b'', ''c''] True None ''c1''
        ([Input ''/'' (Some ''err'') None,
          SearchFetched ''err'' (FetchOk [''m'', ''n''] False (Some 2) [])]
         @ [Input [CHR 0x1B] None None]))
     = Some (False, [], 0, [''m'', ''n''], ''c1'')"
proof -
  let ?evs = "[Input ''/'' (Some ''err'') None,
               SearchFetched ''err'' (FetchOk [''m'', ''n''] False (Some 2) [])]"
  have e: "map_option (\<lambda>s. (searchActive s, allEntries s, currentCursor s))
     (session exDisplay (24, 80) [''a'', ''b'', ''c''] True None ''c1'' ?evs)
     = Some (True, [''m'', ''n''], ''c1'')"
    by code_simp
  then obtain s where s: "session exDisplay (24, 80) [''a'', ''b'', ''c''] True None ''c1'' ?evs = Some s"
    and a: "searchActive s" and es: "allEntries s = [''m'', ''n'']" and c: "currentCursor s = ''c1''"
    by auto
  from s have r: "reachable exDisplay s" by (rule reachable_session)
  from clearing_search_keeps_entries [of exDisplay s None None] r a es c
  have "step exDisplay (Input [CHR 0x1B] None None) s
          = Some (renderScreen exDisplay (performSearch exDisplay [] s))"
    and "\<not> searchActive (renderScreen exDisplay (performSearch exDisplay [] s))"
    and "searchQuery (renderScreen exDisplay (performSearch exDisplay [] s)) = []"
    and "currentIdx (renderScreen exDisplay (performSearch exDisplay [] s)) = 0"
    and "allEntries (renderScreen exDisplay (performSearch exDisplay [] s)) = [''m'', ''n'']"
    and "currentCursor (renderScreen exDisplay (performSearch exDisplay [] s)) = ''c1''"
    by simp_all
  with session_snoc [OF s, of "Input [CHR 0x1B] None None"] e
  show ?thesis by simp
qed

text \<open>Scenario C of the specification: a search with three matches.\<close>

lemma scenarioC:
  "map_option (\<lambda>s. (searchActive s, allEntries s, currentIdx s))
     (session exDisplay (24, 80) [''a'', ''b'', ''c''] True None ''c1''
        [Input ''/'' (Some ''timeout'') None,
         SearchFetched ''timeout'' (FetchOk [''t1'', ''t2'', ''t3''] False (Some 3) [])])
     = Some (True, [''t1'', ''t2'', ''t3''], 0)"
  by code_simp

section \<open>Expansion and scroll offsets\<close>

text \<open>The row loop of the redraw, one row at a time.\<close>

lemma renderRows_done:
  "\<not> (i < ve \<and> i < int (length es) \<and> lns < vh) \<Longrightarrow> renderRows jl es ex vh ve i lns off = off"
  by (auto simp add: renderRows.simps [of jl es ex vh ve i lns off])

lemma renderRows_collapsed:
  "i < ve \<Longrightarrow> i < int (length es) \<Longrightarrow> lns < vh \<Longrightarrow> \<not> getB ex i
   \<Longrightarrow> renderRows jl es ex vh ve i lns off = renderRows jl es ex vh ve (i + 1) (lns + 1) off"
  by (simp add: renderRows.simps [of jl es ex vh ve i lns off])

text \<open>The vertical offset a redraw stores for an expanded entry of \<open>n\<close> lines.\<close>

lemma renderRows_expanded:
  "i < ve \<Longrightarrow> i < int (length es) \<Longrightarrow> lns < vh \<Longrightarrow> getB ex i
   \<Longrightarrow> \<exists>lns'. renderRows jl es ex vh ve i lns off
                 = renderRows jl es ex vh ve (i + 1) lns'
                     (off(i \<mapsto> (if (if getI off i < 0 then 0 else getI off i) \<ge> jl (es ! nat i)
                                 then jl (es ! nat i) - 1
                                 else (if getI off i < 0 then 0 else getI off i))))"
  unfolding renderRows.simps [of jl es ex vh ve i lns off] Let_def
  by (simp split del: if_split) blast

lemma renderRows_keys:
  "(\<forall>k. off k \<noteq> None \<longrightarrow> getB ex k)
   \<Longrightarrow> renderRows jl es ex vh ve i lns off k \<noteq> None \<Longrightarrow> getB ex k"
proof (induction "nat (ve - i)" arbitrary: i lns off)
  case 0
  then show ?case by (simp add: renderRows_done)
next
  case (Suc n)
  show ?case
  proof (cases "i < ve \<and> i < int (length es) \<and> lns < vh")
    case False
    with Suc.prems show ?thesis by (simp add: renderRows_done)
  next
    case inside: True
    from Suc.hyps(2) have n: "n = nat (ve - (i + 1))" by simp
    show ?thesis
    proof (cases "getB ex i")
      case True
      with inside obtain lns' v where
        eq: "renderRows jl es ex vh ve i lns off = renderRows jl es ex vh ve (i + 1) lns' (off(i \<mapsto> v))"
        using renderRows_expanded [of i ve es lns vh ex jl off] by blast
      have keys: "\<forall>k. (off(i \<mapsto> v)) k \<noteq> None \<longrightarrow> getB ex k"
        using Suc.prems(1) True by simp
      from Suc.prems(2) eq
      have "renderRows jl es ex vh ve (i + 1) lns' (off(i \<mapsto> v)) k \<noteq> None" by simp
      then show ?thesis by (rule Suc.hyps(1) [OF n keys])
    next
      case False
      with inside have
        eq: "renderRows jl es ex vh ve i lns off = renderRows jl es ex vh ve (i + 1) (lns + 1) off"
        by (simp add: renderRows_collapsed)
      from Suc.prems(2) eq
      have "renderRows jl es ex vh ve (i + 1) (lns + 1) off k \<noteq> None" by simp
      then show ?thesis by (rule Suc.hyps(1) [OF n Suc.prems(1)])
    qed
  qed
qed

text \<open>An offset 0 stays 0 in a redraw, since every entry has at least one line of JSON.\<close>

lemma renderRows_zero:
  "(\<forall>e. 1 \<le> jl e) \<Longrightarrow> off k = Some 0
   \<Longrightarrow> renderRows jl es ex vh ve i lns off k = Some 0"
proof (induction "nat (ve - i)" arbitrary: i lns off)
  case 0
  then show ?case by (simp add: renderRows_done)
next
  case (Suc n)
  show ?case
  proof (cases "i < ve \<and> i < int (length es) \<and> lns < vh")
    case False
    with Suc.prems show ?thesis by (simp add: renderRows_done)
  next
    case inside: True
    from Suc.hyps(2) have n: "n = nat (ve - (i + 1))" by simp
    show ?thesis
    proof (cases "getB ex i")
      case True
      let ?v = "(if (if getI off i < 0 then 0 else getI off i) \<ge> jl (es ! nat i)
                 then jl (es ! nat i) - 1
                 else (if getI off i < 0 then 0 else getI off i))"
      from True inside obtain lns' where
        eq: "renderRows jl es ex vh ve i lns off
               = renderRows jl es ex vh ve (i + 1) lns' (off(i \<mapsto> ?v))"
        using renderRows_expanded [of i ve es lns vh ex jl off] by blast
      have "1 \<le> jl (es ! nat i)" using Suc.prems(1) by simp
      then have z: "(off(i \<mapsto> ?v)) k = Some 0"
        using Suc.prems(2) by (auto simp: getI_def)
      have "renderRows jl es ex vh ve (i + 1) lns' (off(i \<mapsto> ?v)) k = Some 0"
        using n Suc.prems(1) z by (rule Suc.hyps(1) [where off = "off(i \<mapsto> ?v)"])
      with eq show ?thesis by simp
    next
      case False
      with inside have
        eq: "renderRows jl es ex vh ve i lns off = renderRows jl es ex vh ve (i + 1) (lns + 1) off"
        by (simp add: renderRows_collapsed)
      have "renderRows jl es ex vh ve (i + 1) (lns + 1) off k = Some 0"
        using n Suc.prems by (rule Suc.hyps(1))
      with eq show ?thesis by simp
    qed
  qed
qed


text \<open>
  Every operation of the viewer keeps the vertical offsets inside the expanded entries.
\<close>

lemma scrollInv_renderScreen [simp]: "scrollInv s \<Longrightarrow> scrollInv (renderScreen d s)"
  unfolding scrollInv_def
proof (intro allI impI)
  fix i
  assume inv: "\<forall>i. expandedScrollOffset s i \<noteq> None \<longrightarrow> getB (expanded s) i"
    and set: "expandedScrollOffset (renderScreen d s) i \<noteq> None"
  from set have "getB (expanded s) i"
    unfolding renderScreen_def Let_def
    using renderRows_keys [OF inv] by simp
  then show "getB (expanded (renderScreen d s)) i" by simp
qed

lemma scrollInv_update [simp]:
  "scrollInv (s\<lparr>allEntries := a\<rparr>) = scrollInv s"
  "scrollInv (s\<lparr>currentIdx := i\<rparr>) = scrollInv s"
  "scrollInv (s\<lparr>horizontalScrollOffset := h\<rparr>) = scrollInv s"
  "scrollInv (s\<lparr>loading := b\<rparr>) = scrollInv s"
  "scrollInv (s\<lparr>status := m\<rparr>) = scrollInv s"
  "scrollInv (s\<lparr>searchQuery := q\<rparr>) = scrollInv s"
  "scrollInv (s\<lparr>searchMatches := ms\<rparr>) = scrollInv s"
  "scrollInv (s\<lparr>searchActive := b\<rparr>) = scrollInv s"
  "scrollInv (s\<lparr>searchCursor := c\<rparr>) = scrollInv s"
  "scrollInv (s\<lparr>searchHasMore := b\<rparr>) = scrollInv s"
  "scrollInv (s\<lparr>searchTotal := n\<rparr>) = scrollInv s"
  "scrollInv (s\<lparr>activeStartTime := c\<rparr>) = scrollInv s"
  "scrollInv (s\<lparr>activeEndTime := c\<rparr>) = scrollInv s"
  "scrollInv (s\<lparr>currentCursor := c\<rparr>) = scrollInv s"
  "scrollInv (s\<lparr>hasNextPage := b\<rparr>) = scrollInv s"
  "scrollInv (s\<lparr>totalAvailable := n\<rparr>) = scrollInv s"
  "scrollInv (s\<lparr>tty := z\<rparr>) = scrollInv s"
  "scrollInv (s\<lparr>pending := ts\<rparr>) = scrollInv s"
  "scrollInv (spawn t s) = scrollInv s"
  "scrollInv (moveSelection i s) = scrollInv s"
  "scrollInv (s\<lparr>expanded := Map.empty, expandedScrollOffset := Map.empty\<rparr>)"
  by (simp_all add: scrollInv_def moveSelection_def Let_def)

lemma scrollInv_scrolled [simp]:
  "scrollInv s \<Longrightarrow> getB (expanded s) i
   \<Longrightarrow> scrollInv (s\<lparr>expandedScrollOffset := (expandedScrollOffset s)(i \<mapsto> v)\<rparr>)"
  by (simp add: scrollInv_def)

lemma scrollInv_loadNextPage [simp]: "scrollInv s \<Longrightarrow> scrollInv (loadNextPage d s)"
  by (simp add: loadNextPage_def)

lemma scrollInv_toggle [simp]: "scrollInv s \<Longrightarrow> scrollInv (toggle d s)"
proof -
  assume inv: "scrollInv s"
  let ?i = "currentIdx s"
  have "scrollInv (s\<lparr>expanded := (expanded s)(?i \<mapsto> True),
                     expandedScrollOffset := (expandedScrollOffset s)(?i \<mapsto> 0)\<rparr>)"
    using inv by (simp add: scrollInv_def getB_def)
  moreover
  have "scrollInv (s\<lparr>expanded := (expanded s)(?i \<mapsto> False),
                     expandedScrollOffset := (expandedScrollOffset s)(?i := None)\<rparr>)"
    using inv by (simp add: scrollInv_def getB_def)
  ultimately show ?thesis
    by (cases "getB (expanded s) ?i") (simp_all add: toggle_def Let_def getB_def)
qed

lemma scrollInv_act: "scrollInv s \<Longrightarrow> act d k line1 line2 s = Inr s' \<Longrightarrow> scrollInv s'"
  by (cases k)
     (auto simp: performSearch_def reloadWithDateFilter_def keyDown_def autoLoad_def
        keyUp_def keyRight_def keyLeft_def pageDown_def pageUp_def Let_def
        split: option.splits if_splits)

lemma scrollInv_step: "scrollInv s \<Longrightarrow> step d ev s = Some s' \<Longrightarrow> scrollInv s'"
proof (cases ev)
  case (Input input line1 line2)
  assume "scrollInv s" "step d ev s = Some s'"
  with Input show ?thesis
    by (auto simp: handleInput_act split: sum.splits dest: scrollInv_act)
next
  case (BrowseFetched r)
  assume "scrollInv s" "step d ev s = Some s'"
  with BrowseFetched show ?thesis
    by (cases r) (auto simp: finish_def browsePageDone_def Let_def split: if_splits)
next
  case (SearchPageFetched r)
  assume "scrollInv s" "step d ev s = Some s'"
  with SearchPageFetched show ?thesis
    by (cases r) (auto simp: finish_def searchPageDone_def Let_def split: if_splits)
next
  case (SearchFetched q r)
  assume "scrollInv s" "step d ev s = Some s'"
  with SearchFetched show ?thesis
    by (cases r) (auto simp: finish_def searchDone_def Let_def split: if_splits)
next
  case (Reloaded a b lib http)
  assume "scrollInv s" "step d ev s = Some s'"
  with Reloaded show ?thesis
    by (auto simp: finish_def reloadDone_def Let_def split: if_splits sum.splits reply.splits)
next
  case (Timer m)
  assume "scrollInv s" "step d ev s = Some s'"
  with Timer show ?thesis
    by (auto simp: finish_def clearStatus_def split: if_splits)
qed auto

lemma reachable_scrollInv: "reachable d s \<Longrightarrow> scrollInv s"
proof (induction rule: reachable.induct)
  case (initial sz entries hasMore totalCount nextCursor s)
  then obtain s0 where s: "s = renderScreen d s0" and e: "expandedScrollOffset s0 = Map.empty"
    by (auto simp: runInteractiveMode_def split: if_splits)
  from e have "scrollInv s0" by (simp add: scrollInv_def)
  with s show ?case by simp
next
  case (after s ev s')
  then show ?case by (auto dest: scrollInv_step)
qed

text \<open>
  Claim C7, amended. In every state the viewer can be in, an index whose expansion flag is
  false has no vertical scroll offset. The toggle, when it collapses the selected entry,
  removes its vertical offset; when it expands it, the vertical offset is 0 (an entry has
  at least one line of JSON). The horizontal offsets do not depend on the expansion: the
  toggle leaves them as they are.
\<close>

theorem collapsed_entries_not_scrolled:
  "reachable d s \<Longrightarrow>
     (\<forall>i. \<not> getB (expanded s) i \<longrightarrow> expandedScrollOffset s i = None)
   \<and> (getB (expanded s) (currentIdx s)
        \<longrightarrow> \<not> getB (expanded (toggle d s)) (currentIdx s)
            \<and> expandedScrollOffset (toggle d s) (currentIdx s) = None)
   \<and> (\<not> getB (expanded s) (currentIdx s) \<and> (\<forall>e. 1 \<le> jsonLines d e)
        \<longrightarrow> getB (expanded (toggle d s)) (currentIdx s)
            \<and> expandedScrollOffset (toggle d s) (currentIdx s) = Some 0)
   \<and> horizontalScrollOffset (toggle d s) = horizontalScrollOffset s"
proof (intro conjI impI allI)
  assume r: "reachable d s"
  then have inv: "scrollInv s" by (rule reachable_scrollInv)
  then have inv': "scrollInv (toggle d s)" by simp
  show "horizontalScrollOffset (toggle d s) = horizontalScrollOffset s"
    by (simp add: toggle_def Let_def)
  { fix i
    assume "\<not> getB (expanded s) i"
    with inv show "expandedScrollOffset s i = None"
      by (auto simp: scrollInv_def) }
  { assume x: "getB (expanded s) (currentIdx s)"
    then show c: "\<not> getB (expanded (toggle d s)) (currentIdx s)"
      by (simp add: toggle_def Let_def getB_def)
    with inv' show "expandedScrollOffset (toggle d s) (currentIdx s) = None"
      by (auto simp: scrollInv_def) }
  { assume x: "\<not> getB (expanded s) (currentIdx s) \<and> (\<forall>e. 1 \<le> jsonLines d e)"
    then show "getB (expanded (toggle d s)) (currentIdx s)"
      by (simp add: toggle_def Let_def getB_def)
    from x show "expandedScrollOffset (toggle d s) (currentIdx s) = Some 0"
      by (simp add: toggle_def Let_def getB_def renderScreen_def renderRows_zero) }
qed


lemma decode_space: "decode '' '' = ToggleKey"
  by (simp add: decode_def)

text \<open>The sample state, expanded by one toggle and collapsed by the next.\<close>

theorem collapsed_entries_not_scrolled_witness:
  "reachable exDisplay exViewer
   \<and> \<not> getB (expanded exViewer) (currentIdx exViewer)
   \<and> expandedScrollOffset exViewer 1 = None
   \<and> getB (expanded (toggle exDisplay exViewer)) 0
   \<and> expandedScrollOffset (toggle exDisplay exViewer) 0 = Some 0
   \<and> reachable exDisplay (toggle exDisplay exViewer)
   \<and> \<not> getB (expanded (toggle exDisplay (toggle exDisplay exViewer))) 0
   \<and> expandedScrollOffset (toggle exDisplay (toggle exDisplay exViewer)) 0 = None"
proof -
  have r: "reachable exDisplay exViewer"
    using ex_start by (rule reachable_session)
  have "step exDisplay (Input '' '' None None) exViewer = Some (toggle exDisplay exViewer)"
    by (simp add: handleInput_act decode_space)
  with r have r1: "reachable exDisplay (toggle exDisplay exViewer)"
    by (rule reachable.after)
  have i: "currentIdx exViewer = 0" "currentIdx (toggle exDisplay exViewer) = 0"
    by (simp_all add: exViewer_def toggle_def Let_def)
  have c: "\<not> getB (expanded exViewer) 0" "\<not> getB (expanded exViewer) 1"
    by (simp_all add: exViewer_def getB_def)
  have l: "\<forall>e. 1 \<le> jsonLines exDisplay e" by (simp add: exDisplay_def)
  from collapsed_entries_not_scrolled [OF r] i c l
  have a: "expandedScrollOffset exViewer 1 = None"
    and b: "getB (expanded (toggle exDisplay exViewer)) 0"
    and b': "expandedScrollOffset (toggle exDisplay exViewer) 0 = Some 0"
    by simp_all
  from collapsed_entries_not_scrolled [OF r1] i b
  have "\<not> getB (expanded (toggle exDisplay (toggle exDisplay exViewer))) 0"
    and "expandedScrollOffset (toggle exDisplay (toggle exDisplay exViewer)) 0 = None"
    by simp_all
  with r r1 i c a b b' show ?thesis by simp
qed

text \<open>
  Claim C7 as stated fails for the horizontal offsets. In the sample session the first
  entry is scrolled right, expanded and collapsed again: it is collapsed, has no vertical
  offset, and keeps the horizontal offset 10. And \<^verbatim>\<open>j\<close> alone gives the collapsed
  entry it moves to the horizontal offset 0.
\<close>

theorem collapsed_entry_scrolled_sideways:
  "map_option (\<lambda>s. (getB (expanded s) 0, expandedScrollOffset s 0, horizontalScrollOffset s 0))
     (session exDisplay (24, 80) [''a'', ''b'', ''c''] True None ''c1''
        [Input [CHR 0x1B, CHR ''['', CHR ''C''] None None,
         Input '' '' None None,
         Input '' '' None None])
     = Some (False, None, Some 10)
   \<and> map_option (\<lambda>s. (getB (expanded s) 1, horizontalScrollOffset s 1))
     (session exDisplay (24, 80) [''a'', ''b'', ''c''] True None ''c1''
        [Input ''j'' None None])
     = Some (False, Some 0)"
  by code_simp

section \<open>Blank time specifications\<close>


lemma prefixFree_rev_spaceRunes: "prefixFree (map rev spaceRunes)"
  by code_simp

















end
